theory Spec2Isabelle
  imports Main "HOL-Library.Word" "HOL-Library.Sublist" "HOL-Library.AList"
begin

unbundle bit_operations_syntax

section \<open>Strings and numbers of the script\<close>

text \<open>
  A string of the script is a sequence of UTF-16 code units; \<open>charCodeAt\<close> reads one
  of them as a number between 0 and 65535. Literals of the source are written
  \<open>lit ''...''\<close>. The numbers that occur (hash values, file ids) are integers well inside
  the exact range of a double, so they are modelled as \<open>int\<close>; the 32-bit conversions of
  the bitwise operators are written out with words.
\<close>

type_synonym code_unit = "16 word"
type_synonym jsstring = "code_unit list"

definition lit :: "string \<Rightarrow> jsstring" where
  "lit s = map of_char s"

definition charCode :: "code_unit \<Rightarrow> int" where
  "charCode c = uint c"

text \<open>\<open>ToInt32\<close>, \<open>x << n\<close> and \<open>x & y\<close>: both operands are taken modulo \<open>2^32\<close> and the
  result is read as a signed 32-bit integer.\<close>

definition ToInt32 :: "int \<Rightarrow> 32 word" where
  "ToInt32 x = word_of_int x"

definition js_shl :: "int \<Rightarrow> nat \<Rightarrow> int" where
  "js_shl x n = sint (push_bit (n mod 32) (ToInt32 x))"

definition js_bitand :: "int \<Rightarrow> int \<Rightarrow> int" where
  "js_bitand x y = sint (ToInt32 x AND ToInt32 y)"

text \<open>Decimal rendering of an integer, as string concatenation with a number produces it
  (for integers below \<open>10^21\<close>).\<close>

definition digit_unit :: "nat \<Rightarrow> code_unit" where
  "digit_unit d = of_nat (48 + d)"

function dec_digits :: "nat \<Rightarrow> jsstring" where
  "dec_digits n = (if n < 10 then [digit_unit n] else dec_digits (n div 10) @ [digit_unit (n mod 10)])"
  by pat_completeness auto
termination
  by (relation "measure id") auto

definition number_to_string :: "int \<Rightarrow> jsstring" where
  "number_to_string i = (if i < 0 then lit ''-'' @ dec_digits (nat (- i)) else dec_digits (nat i))"

subsection \<open>String methods\<close>

text \<open>\<open>subject.replace(pat, rep)\<close> with a string pattern replaces the first occurrence
  only; \<open>js_replace_all_unit u rep\<close> is \<open>replace(/u/g, rep)\<close> for a single code unit
  \<open>u\<close>; \<open>js_contains pat s\<close> is \<open>s.indexOf(pat) != -1\<close>; \<open>js_split\<close> and
  \<open>js_join\<close> are \<open>split\<close> and \<open>join\<close>.\<close>

fun js_replace :: "jsstring \<Rightarrow> jsstring \<Rightarrow> jsstring \<Rightarrow> jsstring" where
  "js_replace pat rep [] = (if pat = [] then rep else [])"
| "js_replace pat rep (c # cs) =
     (if prefix pat (c # cs) then rep @ drop (length pat) (c # cs)
      else c # js_replace pat rep cs)"

fun js_replace_all_unit :: "code_unit \<Rightarrow> jsstring \<Rightarrow> jsstring \<Rightarrow> jsstring" where
  "js_replace_all_unit u rep [] = []"
| "js_replace_all_unit u rep (c # cs) =
     (if c = u then rep @ js_replace_all_unit u rep cs else c # js_replace_all_unit u rep cs)"

fun js_contains :: "jsstring \<Rightarrow> jsstring \<Rightarrow> bool" where
  "js_contains pat [] = (pat = [])"
| "js_contains pat (c # cs) = (prefix pat (c # cs) \<or> js_contains pat cs)"

fun js_split :: "code_unit \<Rightarrow> jsstring \<Rightarrow> jsstring list" where
  "js_split sep [] = [[]]"
| "js_split sep (c # cs) =
     (if c = sep then [] # js_split sep cs
      else (case js_split sep cs of [] \<Rightarrow> [[c]] | w # ws \<Rightarrow> (c # w) # ws))"

fun js_join :: "jsstring \<Rightarrow> jsstring list \<Rightarrow> jsstring" where
  "js_join sep [] = []"
| "js_join sep [x] = x"
| "js_join sep (x # y # ys) = x @ sep @ js_join sep (y # ys)"

text \<open>The line terminators, which the \<open>.\<close> of a regular expression does not match,
  and the white space its \<open>\s\<close> matches; lower-casing of the letters A to Z.\<close>

definition is_line_terminator :: "code_unit \<Rightarrow> bool" where
  "is_line_terminator c = (c \<in> set [0x000A, 0x000D, 0x2028, 0x2029])"

definition is_space :: "code_unit \<Rightarrow> bool" where
  "is_space c =
     (c \<in> set [0x0009, 0x000A, 0x000B, 0x000C, 0x000D, 0x0020, 0x00A0, 0x1680,
               0x2000, 0x2001, 0x2002, 0x2003, 0x2004, 0x2005, 0x2006, 0x2007, 0x2008,
               0x2009, 0x200A, 0x2028, 0x2029, 0x202F, 0x205F, 0x3000, 0xFEFF])"

definition toLowerCase_unit :: "code_unit \<Rightarrow> code_unit" where
  "toLowerCase_unit c = (if 0x41 \<le> c \<and> c \<le> 0x5A then c + 0x20 else c)"

section \<open>Drupal.media.utils.hashCode and WysiwygInstance.createKey\<close>

text \<open>
  \<^verbatim>\<open>
  hashCode: function(str) {
    var hash = 0; var char; var i;
    if (str.length == 0) { return hash; }
    for (i = 0; i < str.length; i++) {
      char = str.charCodeAt(i);
      hash = ((hash << 5) - hash) + char;
      hash &= 0x7fffffff;
    }
    return hash;
  }
  \<close>
  The loop visits the code units from left to right; \<open>hashCode_loop\<close> carries \<open>hash\<close>
  over the units still to be read.
\<close>

fun hashCode_loop :: "int \<Rightarrow> jsstring \<Rightarrow> int" where
  "hashCode_loop hash [] = hash"
| "hashCode_loop hash (c # cs) =
     hashCode_loop (js_bitand ((js_shl hash 5 - hash) + charCode c) 0x7fffffff) cs"

definition hashCode :: "jsstring \<Rightarrow> int" where
  "hashCode str = (if length str = 0 then 0 else hashCode_loop 0 str)"

definition createKey :: "jsstring \<Rightarrow> jsstring" where
  "createKey tok = lit ''token-'' @ number_to_string (hashCode tok)"

text \<open>The reference the hash has to agree with: the 31-bit rolling hash
  \<open>h \<mapsto> (31 h + c) mod 2^31\<close>, folded over the code units from the left, starting at 0.\<close>

definition ref_hash31 :: "jsstring \<Rightarrow> int" where
  "ref_hash31 s = foldl (\<lambda>h c. (31 * h + uint c) mod 2 ^ 31) 0 s"

section \<open>Values, objects and thrown errors\<close>

text \<open>
  The values the instance code handles: \<open>undefined\<close>, \<open>null\<close>, booleans, numbers,
  strings and plain objects. An object is the list of its own enumerable properties in
  the order \<open>for ... in\<close> and \<open>$.each\<close> visit them: an assignment to an existing
  property keeps its place, a new property goes to the end, \<open>delete\<close> removes it
  (\<open>AList.update\<close>, \<open>AList.delete\<close>, \<open>map_of\<close>). Arrays, functions and properties
  inherited from prototypes are outside the model, and so are a string's own \<open>length\<close> and
  index properties.
\<close>

datatype jsval =
    JUndefined
  | JNull
  | JBool bool
  | JNum int
  | JStr jsstring
  | JObj "(jsstring \<times> jsval) list"

text \<open>
  The code throws plain strings; each thrown message is one constructor:
  \<^item> \<open>MissingBasicInfo\<close>: "Instance missing basic info";
  \<^item> \<open>NoSettings\<close>: "Invalid state: Cannot verify settings without settings.";
  \<^item> \<open>MissingRequired p\<close>: "Media token parse error: Missing required property 'p'.";
  \<^item> \<open>WrongType\<close>: "Token not of type 'media'.";
  \<^item> \<open>MissingPlaceholder\<close>: "Unable to retrieve media html.";
  \<^item> \<open>NoPlaceholderBase\<close>: "Invalid state: PlaceholderBase is missing";
  \<^item> \<open>NoPlaceholder\<close>: "Invalid state: Instance placeholder is missing.";
  \<^item> \<open>SyntaxError\<close>: raised by \<open>JSON.parse\<close>;
  \<^item> \<open>TypeError\<close>: raised by the runtime (the files run in strict mode, where an
    assignment to a property of a primitive value throws).
  A throw abandons the operation: the model follows an instance up to the first throw.
\<close>

datatype error =
    MissingBasicInfo
  | NoSettings
  | MissingRequired jsstring
  | WrongType
  | MissingPlaceholder
  | NoPlaceholderBase
  | NoPlaceholder
  | SyntaxError
  | TypeError

text \<open>\<open>!v\<close> is \<open>\<not> truthy v\<close>.\<close>

fun truthy :: "jsval \<Rightarrow> bool" where
  "truthy JUndefined = False"
| "truthy JNull = False"
| "truthy (JBool b) = b"
| "truthy (JNum n) = (n \<noteq> 0)"
| "truthy (JStr s) = (s \<noteq> [])"
| "truthy (JObj ps) = True"

fun typeof :: "jsval \<Rightarrow> string" where
  "typeof JUndefined = ''undefined''"
| "typeof JNull = ''object''"
| "typeof (JBool b) = ''boolean''"
| "typeof (JNum n) = ''number''"
| "typeof (JStr s) = ''string''"
| "typeof (JObj ps) = ''object''"

fun own_props :: "jsval \<Rightarrow> (jsstring \<times> jsval) list" where
  "own_props (JObj ps) = ps"
| "own_props v = []"

text \<open>\<open>obj[p]\<close> read, \<open>obj[p] = v\<close> and \<open>delete obj[p]\<close>, for a value \<open>obj\<close> that is
  neither \<open>undefined\<close> nor \<open>null\<close> (every access of the code is behind a truthiness test
  of \<open>obj\<close>).\<close>

definition js_get :: "jsval \<Rightarrow> jsstring \<Rightarrow> jsval" where
  "js_get obj p = (case map_of (own_props obj) p of Some v \<Rightarrow> v | None \<Rightarrow> JUndefined)"

fun js_set :: "jsval \<Rightarrow> jsstring \<Rightarrow> jsval \<Rightarrow> error + jsval" where
  "js_set (JObj ps) p v = Inr (JObj (AList.update p v ps))"
| "js_set obj p v = Inl TypeError"

fun js_delete :: "jsval \<Rightarrow> jsstring \<Rightarrow> jsval" where
  "js_delete (JObj ps) p = JObj (AList.delete p ps)"
| "js_delete obj p = obj"

text \<open>The string a value becomes when it is used as a property name or concatenated.\<close>

fun ToString :: "jsval \<Rightarrow> jsstring" where
  "ToString JUndefined = lit ''undefined''"
| "ToString JNull = lit ''null''"
| "ToString (JBool b) = (if b then lit ''true'' else lit ''false'')"
| "ToString (JNum n) = number_to_string n"
| "ToString (JStr s) = s"
| "ToString (JObj ps) = lit ''[object Object]''"

subsection \<open>Drupal.media.utils.copyAsNew\<close>

text \<open>
  \<^verbatim>\<open>
  copyAsNew: function(src) {
    return src instanceof Object ? $.extend(true, {}, src) : src;
  }
  \<close>
  \<open>extend_deep target options\<close> is jQuery's \<open>$.extend(true, target, options)\<close>: for every
  property \<open>name\<close> of \<open>options\<close> with value \<open>copy\<close>, a plain object is merged
  recursively into \<open>target[name]\<close> when that is a plain object and into a new \<open>{}\<close>
  otherwise; any other value but \<open>undefined\<close> is assigned; \<open>undefined\<close> is skipped.
\<close>

fun extend_deep ::
  "(jsstring \<times> jsval) list \<Rightarrow> (jsstring \<times> jsval) list \<Rightarrow> (jsstring \<times> jsval) list" where
  "extend_deep target [] = target"
| "extend_deep target ((name, copy) # options) =
     extend_deep
       (case copy of
          JObj ps \<Rightarrow>
            AList.update name
              (JObj (extend_deep (case map_of target name of Some (JObj src) \<Rightarrow> src | _ \<Rightarrow> []) ps))
              target
        | JUndefined \<Rightarrow> target
        | _ \<Rightarrow> AList.update name copy target)
       options"

definition copyAsNew :: "jsval \<Rightarrow> jsval" where
  "copyAsNew src = (case src of JObj ps \<Rightarrow> JObj (extend_deep [] ps) | _ \<Rightarrow> src)"

text \<open>A value as JSON delivers it: no property holds \<open>undefined\<close>, and the property names
  of every object are pairwise different.\<close>

fun plain :: "jsval \<Rightarrow> bool" where
  "plain (JObj ps) =
     (distinct (map fst ps) \<and> list_all (\<lambda>kv. snd kv \<noteq> JUndefined \<and> plain (snd kv)) ps)"
| "plain v = True"

text \<open>Sequencing of two operations of which the first may throw.\<close>

definition bindE :: "error + 'a \<Rightarrow> ('a \<Rightarrow> error + 'b) \<Rightarrow> error + 'b" where
  "bindE m f = (case m of Inl e \<Rightarrow> Inl e | Inr x \<Rightarrow> f x)"

section \<open>The placeholder element and jQuery\<close>

text \<open>
  A DOM element as the alignment and synchronisation code reads and writes it: its tag
  name, its attributes (the \<open>class\<close> attribute among them), the computed value of the
  \<open>float\<close> style that \<open>.css('float')\<close> reads and the inline value that
  \<open>.css('float', v)\<close> writes. A jQuery object is the list of the elements it holds: a
  getter reads the first element, a setter changes all of them.

  The class methods work on the tokens of the \<open>class\<close> attribute, separated by white
  space. \<open>removeClass\<close> and \<open>addClass\<close> leave an element they do not change as it
  is and otherwise write the tokens back joined by single spaces (the versions of jQuery
  differ in how much of the original spacing they keep, never in the tokens).
\<close>

record element =
  tagName :: jsstring
  attrs :: "(jsstring \<times> jsstring) list"
  computed_float :: jsstring
  inline_float :: jsstring

type_synonym jq = "element list"

definition jq_attr :: "jq \<Rightarrow> jsstring \<Rightarrow> jsstring option" where
  "jq_attr el name = (case el of [] \<Rightarrow> None | e # rest \<Rightarrow> map_of (attrs e) name)"

definition jq_removeAttr :: "jsstring \<Rightarrow> jq \<Rightarrow> jq" where
  "jq_removeAttr name el = map (\<lambda>e. e\<lparr>attrs := AList.delete name (attrs e)\<rparr>) el"

definition is_class_space :: "code_unit \<Rightarrow> bool" where
  "is_class_space c = (c \<in> set [0x20, 0x09, 0x0A, 0x0D, 0x0C])"

fun class_tokens :: "jsstring \<Rightarrow> jsstring list" where
  "class_tokens [] = []"
| "class_tokens (c # cs) =
     (if is_class_space c then class_tokens cs
      else (case cs of
              [] \<Rightarrow> [[c]]
            | d # ds \<Rightarrow>
                if is_class_space d then [c] # class_tokens cs
                else (case class_tokens cs of [] \<Rightarrow> [[c]] | t # ts \<Rightarrow> (c # t) # ts)))"

definition class_attr :: "element \<Rightarrow> jsstring" where
  "class_attr e = (case map_of (attrs e) (lit ''class'') of None \<Rightarrow> [] | Some v \<Rightarrow> v)"

definition el_hasClass :: "jsstring \<Rightarrow> element \<Rightarrow> bool" where
  "el_hasClass c e = (c \<in> set (class_tokens (class_attr e)))"

definition jq_hasClass :: "jq \<Rightarrow> jsstring \<Rightarrow> bool" where
  "jq_hasClass el c = list_ex (el_hasClass c) el"

definition el_removeClass :: "jsstring \<Rightarrow> element \<Rightarrow> element" where
  "el_removeClass v e =
     (if class_attr e = [] then e
      else e\<lparr>attrs := AList.update (lit ''class'')
                 (js_join (lit '' '') (filter (\<lambda>t. t \<notin> set (class_tokens v)) (class_tokens (class_attr e))))
                 (attrs e)\<rparr>)"

definition el_addClass :: "jsstring \<Rightarrow> element \<Rightarrow> element" where
  "el_addClass v e =
     (let cur = class_tokens (class_attr e);
          new = filter (\<lambda>t. t \<notin> set cur) (remdups (class_tokens v))
      in if new = [] then e
         else e\<lparr>attrs := AList.update (lit ''class'') (js_join (lit '' '') (cur @ new)) (attrs e)\<rparr>)"

definition jq_removeClass :: "jsstring \<Rightarrow> jq \<Rightarrow> jq" where
  "jq_removeClass v el = map (el_removeClass v) el"

definition jq_addClass :: "jsstring \<Rightarrow> jq \<Rightarrow> jq" where
  "jq_addClass v el = map (el_addClass v) el"

definition jq_css_float_set :: "jsstring \<Rightarrow> jq \<Rightarrow> jq" where
  "jq_css_float_set v el = map (\<lambda>e. e\<lparr>inline_float := v\<rparr>) el"

section \<open>The media instance and its surroundings\<close>

text \<open>The fields of \<open>Drupal.media.WysiwygInstance\<close>: \<open>settings\<close> is \<open>null\<close> and
  \<open>$placeholder\<close> is \<open>null\<close> (\<open>None\<close>) until they are set.\<close>

record media_instance =
  token :: jsstring
  settings :: jsval
  key :: jsstring
  placeholderBase :: jsstring
  placeholder :: "jq option"

text \<open>
  Modelled from the spec: the tables of \<open>Drupal.settings.media\<close> are injected by the
  server and are not part of the scripts. The shared token schema maps a property name to
  \<open>{required: bool, default: value}\<close>; \<open>attributeFields\<close> maps an attribute name to a
  field name; \<open>wysiwygAllowedAttributes\<close> is the list of allowed attributes;
  \<open>overridableFields\<close> maps a file type to its overridable fields; \<open>fidTypeMap\<close> maps a
  file id to a file type; \<open>tagMap\<close> maps a token key to the HTML rendered for it;
  \<open>doLinkText\<close> is the "track link text" flag.

  The browser's own functions are parameters as well: \<open>JSON.parse\<close> (which throws a
  \<open>SyntaxError\<close>), \<open>JSON.stringify\<close>, the text content of a parsed HTML fragment
  (\<open>$('<div>').append(html).text()\<close>), an element's \<open>outerHTML\<close>, and the inner HTML of
  the first link without an image below the elements of a jQuery object
  (\<open>find('a:not(:has(img))').html()\<close>, \<open>undefined\<close> when there is none).

  \<open>placeholder_from_base\<close> stands for the rebuilding of the placeholder element from
  its HTML, \<open>this.$placeholder = $(placeholderBase); this.syncSettingsToPlaceholder()\<close>:
  the element it builds and the instance as it leaves it. It walks and rewrites the DOM
  tree below the element and is left open here; what is proved holds for every such
  function.
\<close>

record schema_prop =
  required :: bool
  default_val :: jsval

record env =
  tokenSchema :: "(jsstring \<times> schema_prop) list"
  attributeFields :: "(jsstring \<times> jsstring) list"
  wysiwygAllowedAttributes :: "jsstring list"
  overridableFields :: "(jsstring \<times> (jsstring \<times> jsval) list) list"
  fidTypeMap :: "(jsstring \<times> jsval) list"
  tagMap :: "(jsstring \<times> jsstring) list"
  doLinkText :: bool
  JSON_parse :: "jsstring \<Rightarrow> error + jsval"
  JSON_stringify :: "jsval \<Rightarrow> jsstring"
  html_text :: "jsstring \<Rightarrow> jsstring"
  outerHTML_of :: "element \<Rightarrow> jsstring"
  link_html :: "jq \<Rightarrow> jsval"
  placeholder_from_base :: "jsstring \<Rightarrow> media_instance \<Rightarrow> error + (jq \<times> media_instance)"

subsection \<open>verifySettings\<close>

text \<open>
  \<^verbatim>\<open>
  verifySettings: function() {
    var self = this;
    if (!this.settings) {
      throw "Invalid state: Cannot verify settings without settings.";
    }
    $.each(Drupal.settings.media.tokenSchema, function(property, propSettings) {
      if (propSettings.required) {
        if (!self.settings[property]) {
          throw "Media token parse error: Missing required property '" + property + "'.";
        }
      }
      else {
        if (!self.settings[property]) {
          self.settings[property] = Drupal.media.utils.copyAsNew(propSettings.default);
        }
      }
    });
    if (this.settings.type !== 'media') {
      throw "Token not of type 'media'.";
    }
  }
  \<close>
  The function works on \<open>this.settings\<close> in place; the model takes the settings and
  returns them as verification leaves them. \<open>verifySettings_each\<close> is the \<open>$.each\<close>
  over the schema's properties.
\<close>

fun verifySettings_each :: "(jsstring \<times> schema_prop) list \<Rightarrow> jsval \<Rightarrow> error + jsval" where
  "verifySettings_each [] s = Inr s"
| "verifySettings_each ((property, propSettings) # rest) s =
     (if required propSettings then
        (if \<not> truthy (js_get s property) then Inl (MissingRequired property)
         else verifySettings_each rest s)
      else
        (if \<not> truthy (js_get s property) then
           (case js_set s property (copyAsNew (default_val propSettings)) of
              Inl e \<Rightarrow> Inl e
            | Inr s' \<Rightarrow> verifySettings_each rest s')
         else verifySettings_each rest s))"

definition verifySettings :: "env \<Rightarrow> jsval \<Rightarrow> error + jsval" where
  "verifySettings cfg s =
     (if \<not> truthy s then Inl NoSettings
      else case verifySettings_each (tokenSchema cfg) s of
             Inl e \<Rightarrow> Inl e
           | Inr s' \<Rightarrow>
               if js_get s' (lit ''type'') \<noteq> JStr (lit ''media'') then Inl WrongType
               else Inr s')"

subsection \<open>The constructor\<close>

text \<open>
  \<^verbatim>\<open>
  Drupal.media.WysiwygInstance = function(instanceInfo, placeholderBase) {
    this.token = ''; this.settings = null; this.key = '';
    this.placeholderBase = ''; this.$placeholder = null;
    if (typeof instanceInfo === 'object') {
      this.settings = instanceInfo;
      this.verifySettings();
      if (this.settings.file_type) {
        Drupal.settings.media.fidTypeMap[this.settings.fid] = this.settings.file_type;
      }
    }
    else if (typeof instanceInfo === 'string') {
      this.token = instanceInfo;
    }
    if (placeholderBase) {
      this.placeholderBase = placeholderBase;
    }
  };
  \<close>
  The constructor writes the global \<open>fidTypeMap\<close>, so it returns the page's settings
  along with the new instance. An omitted \<open>placeholderBase\<close> is the empty string.
\<close>

definition WysiwygInstance :: "env \<Rightarrow> jsval \<Rightarrow> jsstring \<Rightarrow> error + (media_instance \<times> env)" where
  "WysiwygInstance cfg instanceInfo base =
     (let this = \<lparr>token = [], settings = JNull, key = [], placeholderBase = [], placeholder = None\<rparr>;
          withBase = (\<lambda>i. if base \<noteq> [] then i\<lparr>placeholderBase := base\<rparr> else i)
      in if typeof instanceInfo = ''object'' then
           (case verifySettings cfg instanceInfo of
              Inl e \<Rightarrow> Inl e
            | Inr s \<Rightarrow>
                Inr (withBase (this\<lparr>settings := s\<rparr>),
                     if truthy (js_get s (lit ''file_type''))
                     then cfg\<lparr>fidTypeMap :=
                            AList.update (ToString (js_get s (lit ''fid''))) (js_get s (lit ''file_type''))
                              (fidTypeMap cfg)\<rparr>
                     else cfg))
         else if typeof instanceInfo = ''string'' then
           Inr (withBase (this\<lparr>token := (case instanceInfo of JStr t \<Rightarrow> t | _ \<Rightarrow> [])\<rparr>), cfg)
         else Inr (withBase this, cfg))"

subsection \<open>getSettings\<close>

text \<open>
  \<^verbatim>\<open>
  getSettings: function() {
    if (!this.settings) {
      if (!this.token) {
        throw "Instance missing basic info";
      }
      this.settings = JSON.parse(this.token.replace('[[', '').replace(']]', ''));
      this.verifySettings();
    }
    return this.settings;
  }
  \<close>
  The methods of the instance return their result together with the instance as they
  leave it.
\<close>

definition getSettings :: "env \<Rightarrow> media_instance \<Rightarrow> error + (jsval \<times> media_instance)" where
  "getSettings cfg this =
     (if \<not> truthy (settings this) then
        (if token this = [] then Inl MissingBasicInfo
         else case JSON_parse cfg (js_replace (lit '']]'') [] (js_replace (lit ''[['') [] (token this))) of
                Inl e \<Rightarrow> Inl e
              | Inr parsed \<Rightarrow>
                  (case verifySettings cfg parsed of
                     Inl e \<Rightarrow> Inl e
                   | Inr s \<Rightarrow> Inr (s, this\<lparr>settings := s\<rparr>)))
      else Inr (settings this, this))"

subsection \<open>propertyStartsWith and syncAttributesToFields\<close>

text \<open>
  \<^verbatim>\<open>
  propertyStartsWith(needle, haystack) {
    var property;
    for (property in haystack) {
      if (haystack.hasOwnProperty(property)) {
        if (property.startsWith(needle)) { return property; }
      }
    }
    return null;
  }

  syncAttributesToFields: function(reverse) {
    var fieldId;
    var settings = this.getSettings();
    if (!settings.attributes) { settings.attributes = {}; }
    $.each(Drupal.settings.media.attributeFields, function(attribute, fieldName) {
      fieldId = Drupal.media.utils.propertyStartsWith(fieldName + '[', settings);
      if (!reverse) {
        settings[fieldId] = settings.attributes[attribute] ? settings.attributes[attribute] : '';
      }
      else {
        if (settings[fieldId]) { settings.attributes[attribute] = settings[fieldId]; }
        else { delete settings.attributes[attribute]; }
      }
    });
  }
  \<close>
  \<open>syncAttributesToFields_entry\<close> is the callback of the \<open>$.each\<close>, for one entry of
  the attribute table; \<open>settings[fieldId]\<close> turns \<open>fieldId\<close> into a property name with
  \<open>ToString\<close>. The nested object \<open>settings.attributes\<close> is changed in place, which the
  model writes back into \<open>settings\<close>.
\<close>

fun propertyStartsWith_loop :: "jsstring \<Rightarrow> (jsstring \<times> jsval) list \<Rightarrow> jsval" where
  "propertyStartsWith_loop needle [] = JNull"
| "propertyStartsWith_loop needle ((property, v) # rest) =
     (if prefix needle property then JStr property else propertyStartsWith_loop needle rest)"

definition propertyStartsWith :: "jsstring \<Rightarrow> jsval \<Rightarrow> jsval" where
  "propertyStartsWith needle haystack = propertyStartsWith_loop needle (own_props haystack)"

definition syncAttributesToFields_entry :: "bool \<Rightarrow> jsstring \<times> jsstring \<Rightarrow> jsval \<Rightarrow> error + jsval" where
  "syncAttributesToFields_entry reverse af s =
     (let attribute = fst af; fieldName = snd af;
          fieldId = ToString (propertyStartsWith (fieldName @ lit ''['') s);
          attributes = js_get s (lit ''attributes'')
      in if \<not> reverse then
           js_set s fieldId
             (if truthy (js_get attributes attribute) then js_get attributes attribute else JStr [])
         else if truthy (js_get s fieldId) then
           (case js_set attributes attribute (js_get s fieldId) of
              Inl e \<Rightarrow> Inl e
            | Inr attributes' \<Rightarrow> js_set s (lit ''attributes'') attributes')
         else js_set s (lit ''attributes'') (js_delete attributes attribute))"

fun syncAttributesToFields_each :: "bool \<Rightarrow> (jsstring \<times> jsstring) list \<Rightarrow> jsval \<Rightarrow> error + jsval" where
  "syncAttributesToFields_each reverse [] s = Inr s"
| "syncAttributesToFields_each reverse (af # rest) s =
     (case syncAttributesToFields_entry reverse af s of
        Inl e \<Rightarrow> Inl e
      | Inr s' \<Rightarrow> syncAttributesToFields_each reverse rest s')"

definition syncAttributesToFields_settings :: "env \<Rightarrow> bool \<Rightarrow> jsval \<Rightarrow> error + jsval" where
  "syncAttributesToFields_settings cfg reverse s =
     (case (if \<not> truthy (js_get s (lit ''attributes''))
            then js_set s (lit ''attributes'') (JObj []) else Inr s) of
        Inl e \<Rightarrow> Inl e
      | Inr s1 \<Rightarrow> syncAttributesToFields_each reverse (attributeFields cfg) s1)"

definition syncAttributesToFields :: "env \<Rightarrow> bool \<Rightarrow> media_instance \<Rightarrow> error + media_instance" where
  "syncAttributesToFields cfg reverse this =
     (case getSettings cfg this of
        Inl e \<Rightarrow> Inl e
      | Inr (s, this1) \<Rightarrow>
          (case syncAttributesToFields_settings cfg reverse s of
             Inl e \<Rightarrow> Inl e
           | Inr s' \<Rightarrow> Inr (this1\<lparr>settings := s'\<rparr>)))"

definition syncFieldsToAttributes :: "env \<Rightarrow> media_instance \<Rightarrow> error + media_instance" where
  "syncFieldsToAttributes cfg this = syncAttributesToFields cfg True this"

subsection \<open>overrideLinkTitle\<close>

text \<open>
  \<^verbatim>\<open>
  overrideLinkTitle: function() {
    var settings = this.getSettings();
    if (!Drupal.settings.media.attributeFields.title) { return settings.link_text; }
    var file_title_field_machine_name = '';
    $.each(settings, function(field, fieldValue) {
      if (field.indexOf(Drupal.settings.media.attributeFields.title) != -1) {
        file_title_field_machine_name = field;
      }
    });
    if (typeof settings[file_title_field_machine_name] != 'undefined'
        && settings[file_title_field_machine_name] != '') {
      return settings[file_title_field_machine_name];
    }
    return settings.link_text;
  }
  \<close>
  It is called where the settings are at hand, so the model takes them as its argument.
  \<open>loose_eq_empty_string v\<close> is \<open>v == ''\<close>.
\<close>

fun loose_eq_empty_string :: "jsval \<Rightarrow> bool" where
  "loose_eq_empty_string (JStr s) = (s = [])"
| "loose_eq_empty_string (JNum n) = (n = 0)"
| "loose_eq_empty_string (JBool b) = (\<not> b)"
| "loose_eq_empty_string v = False"

fun overrideLinkTitle_each :: "jsstring \<Rightarrow> (jsstring \<times> jsval) list \<Rightarrow> jsstring \<Rightarrow> jsstring" where
  "overrideLinkTitle_each title [] file_title_field_machine_name = file_title_field_machine_name"
| "overrideLinkTitle_each title ((field, fieldValue) # rest) file_title_field_machine_name =
     overrideLinkTitle_each title rest
       (if js_contains title field then field else file_title_field_machine_name)"

definition overrideLinkTitle :: "env \<Rightarrow> jsval \<Rightarrow> jsval" where
  "overrideLinkTitle cfg s =
     (case map_of (attributeFields cfg) (lit ''title'') of
        None \<Rightarrow> js_get s (lit ''link_text'')
      | Some title \<Rightarrow>
          if title = [] then js_get s (lit ''link_text'')
          else
            (let file_title_field_machine_name = overrideLinkTitle_each title (own_props s) [] in
             if typeof (js_get s file_title_field_machine_name) \<noteq> ''undefined''
                \<and> \<not> loose_eq_empty_string (js_get s file_title_field_machine_name)
             then js_get s file_title_field_machine_name
             else js_get s (lit ''link_text'')))"

subsection \<open>getOverridableFields and prepareSettingsForToken\<close>

text \<open>
  \<^verbatim>\<open>
  Drupal.media.WysiwygInstance.getOverridableFields = function(fid) {
    var type, fields;
    if ((type = Drupal.settings.media.fidTypeMap[fid])
        && (fields = Drupal.settings.media.overridableFields[type])) {
      return fields;
    }
    return {};
  };

  prepareSettingsForToken: function() {
    var pristine = {};
    var settings = this.getSettings();
    $.each(Drupal.settings.media.tokenSchema, function(property) {
      if (settings[property]) {
        pristine[property] = Drupal.media.utils.copyAsNew(settings[property]);
      }
    });
    $.each(Drupal.media.WysiwygInstance.getOverridableFields(settings.fid), function(field) {
      $.each(settings, function(property) {
        if (property.startsWith(field + '[')) { pristine[property] = settings[property]; }
      });
    });
    if (pristine.attributes) {
      $.each(Drupal.settings.media.attributeFields, function(attribute) {
        delete pristine.attributes[attribute];
      });
      delete pristine.attributes['data-fid'];
      delete pristine.attributes['data-media-element'];
      delete pristine.attributes["data-media-key"];
      if (pristine.attributes.class) {
        classes = pristine.attributes.class.split(' ');
        classes = classes.filter(function(className) {
          return !(className == 'media-element'
                  || /^file-\S+$/.test(className)
                  || /^media-wysiwyg-align-(left|right|center)$/.test(className));
        });
        if (classes.length) { pristine.attributes.class = classes.join(' '); }
        else { delete pristine.attributes.class; }
      }
      if (!Object.keys(pristine.attributes).length) { delete pristine.attributes; }
    }
    return pristine;
  }
  \<close>
  \<open>generated_class\<close> is the test of the filter, \<open>clean_class\<close> the treatment of
  \<open>pristine.attributes.class\<close>, \<open>clean_attributes\<close> the whole block under
  \<open>if (pristine.attributes)\<close>.
\<close>

definition getOverridableFields :: "env \<Rightarrow> jsval \<Rightarrow> (jsstring \<times> jsval) list" where
  "getOverridableFields cfg fid =
     (case map_of (fidTypeMap cfg) (ToString fid) of
        None \<Rightarrow> []
      | Some ty \<Rightarrow>
          if truthy ty then
            (case map_of (overridableFields cfg) (ToString ty) of None \<Rightarrow> [] | Some fs \<Rightarrow> fs)
          else [])"

fun copy_schema_properties ::
  "(jsstring \<times> schema_prop) list \<Rightarrow> jsval \<Rightarrow> (jsstring \<times> jsval) list \<Rightarrow> (jsstring \<times> jsval) list" where
  "copy_schema_properties [] s pristine = pristine"
| "copy_schema_properties ((property, propSettings) # rest) s pristine =
     copy_schema_properties rest s
       (if truthy (js_get s property)
        then AList.update property (copyAsNew (js_get s property)) pristine
        else pristine)"

fun copy_field_properties ::
  "jsstring \<Rightarrow> (jsstring \<times> jsval) list \<Rightarrow> (jsstring \<times> jsval) list \<Rightarrow> (jsstring \<times> jsval) list" where
  "copy_field_properties field [] pristine = pristine"
| "copy_field_properties field ((property, v) # rest) pristine =
     copy_field_properties field rest
       (if prefix (field @ lit ''['') property then AList.update property v pristine else pristine)"

fun copy_overridable_fields ::
  "(jsstring \<times> jsval) list \<Rightarrow> jsval \<Rightarrow> (jsstring \<times> jsval) list \<Rightarrow> (jsstring \<times> jsval) list" where
  "copy_overridable_fields [] s pristine = pristine"
| "copy_overridable_fields ((field, status) # rest) s pristine =
     copy_overridable_fields rest s (copy_field_properties field (own_props s) pristine)"

definition generated_class :: "jsstring \<Rightarrow> bool" where
  "generated_class className =
     (className = lit ''media-element''
      \<or> (prefix (lit ''file-'') className \<and> drop 5 className \<noteq> []
          \<and> list_all (\<lambda>c. \<not> is_space c) (drop 5 className))
      \<or> className \<in> set [lit ''media-wysiwyg-align-left'', lit ''media-wysiwyg-align-right'',
                           lit ''media-wysiwyg-align-center''])"

definition clean_class :: "jsval \<Rightarrow> error + jsval" where
  "clean_class attributes =
     (let cls = js_get attributes (lit ''class'') in
      if truthy cls then
        (case cls of
           JStr c \<Rightarrow>
             (let classes = filter (\<lambda>className. \<not> generated_class className) (js_split 0x20 c) in
              if classes \<noteq> [] then js_set attributes (lit ''class'') (JStr (js_join (lit '' '') classes))
              else Inr (js_delete attributes (lit ''class'')))
         | _ \<Rightarrow> Inl TypeError)
      else Inr attributes)"

definition clean_attributes :: "env \<Rightarrow> (jsstring \<times> jsval) list \<Rightarrow> error + (jsstring \<times> jsval) list" where
  "clean_attributes cfg pristine =
     (let attributes = js_get (JObj pristine) (lit ''attributes'') in
      if truthy attributes then
        (let a1 = fold (\<lambda>af a. js_delete a (fst af)) (attributeFields cfg) attributes;
             a2 = js_delete a1 (lit ''data-fid'');
             a3 = js_delete a2 (lit ''data-media-element'');
             a4 = js_delete a3 (lit ''data-media-key'')
         in case clean_class a4 of
              Inl e \<Rightarrow> Inl e
            | Inr a5 \<Rightarrow>
                if own_props a5 = [] then Inr (AList.delete (lit ''attributes'') pristine)
                else Inr (AList.update (lit ''attributes'') a5 pristine))
      else Inr pristine)"

definition prepareSettingsForToken :: "env \<Rightarrow> jsval \<Rightarrow> error + jsval" where
  "prepareSettingsForToken cfg s =
     (let pristine = copy_schema_properties (tokenSchema cfg) s [];
          pristine = copy_overridable_fields (getOverridableFields cfg (js_get s (lit ''fid''))) s pristine
      in case clean_attributes cfg pristine of
           Inl e \<Rightarrow> Inl e
         | Inr pristine \<Rightarrow> Inr (JObj pristine))"

subsection \<open>getToken and getKey\<close>

text \<open>
  \<^verbatim>\<open>
  getToken: function() {
    if (this.token) { return this.token; }
    var settings = this.getSettings();
    if (typeof settings.link_text == 'string') {
      settings.link_text = this.overrideLinkTitle();
      settings.link_text = settings.link_text.replace(/</g, '&lt;').replace(/>/g, '&gt;');
    }
    this.token = '[[' + JSON.stringify(this.prepareSettingsForToken()) + ']]';
    return this.token;
  }

  getKey: function() {
    if (!this.key) {
      this.key = Drupal.media.WysiwygInstance.createKey(this.getToken());
    }
    return this.key;
  }
  \<close>
  When \<open>overrideLinkTitle\<close> returns something that is not a string, the call of
  \<open>replace\<close> on it throws a \<open>TypeError\<close>.
\<close>

definition escape_tags :: "jsstring \<Rightarrow> jsstring" where
  "escape_tags t = js_replace_all_unit 0x3E (lit ''&gt;'') (js_replace_all_unit 0x3C (lit ''&lt;'') t)"

definition getToken :: "env \<Rightarrow> media_instance \<Rightarrow> error + (jsstring \<times> media_instance)" where
  "getToken cfg this =
     (if token this \<noteq> [] then Inr (token this, this)
      else case getSettings cfg this of
        Inl e \<Rightarrow> Inl e
      | Inr (s, this1) \<Rightarrow>
          (case (if typeof (js_get s (lit ''link_text'')) = ''string'' then
                   (case overrideLinkTitle cfg s of
                      JStr t \<Rightarrow> js_set s (lit ''link_text'') (JStr (escape_tags t))
                    | _ \<Rightarrow> Inl TypeError)
                 else Inr s) of
             Inl e \<Rightarrow> Inl e
           | Inr s1 \<Rightarrow>
               (case prepareSettingsForToken cfg s1 of
                  Inl e \<Rightarrow> Inl e
                | Inr pristine \<Rightarrow>
                    (let t = lit ''[['' @ JSON_stringify cfg pristine @ lit '']]''
                     in Inr (t, this1\<lparr>settings := s1, token := t\<rparr>)))))"

definition getKey :: "env \<Rightarrow> media_instance \<Rightarrow> error + (jsstring \<times> media_instance)" where
  "getKey cfg this =
     (if key this = [] then
        (case getToken cfg this of
           Inl e \<Rightarrow> Inl e
         | Inr (t, this1) \<Rightarrow> Inr (createKey t, this1\<lparr>key := createKey t\<rparr>))
      else Inr (key this, this))"

subsection \<open>The placeholder\<close>

text \<open>
  \<^verbatim>\<open>
  setPlaceholderBase: function(html) { this.placeholderBase = html; }

  getPlaceholderBase: function() {
    if (!this.placeholderBase) {
      this.placeholderBase = Drupal.settings.media.tagMap[this.getKey()];
      if (!this.placeholderBase) {
        throw "Unable to retrieve media html.";
      }
      if ($('<div>').append(this.placeholderBase).text().length === this.placeholderBase.length) {
        this.placeholderBase = '<span>' + this.placeholderBase + '</span>';
      }
    }
    return this.placeholderBase;
  }

  outerHTML: function ($element) {
    return $element[0].outerHTML || $('<div>').append($element.eq(0).clone()).html();
  }

  getPlaceholder: function() {
    if (this.$placeholder) { return this.$placeholder; }
    var placeholderBase = this.getPlaceholderBase();
    if (!placeholderBase) { throw "Invalid state: PlaceholderBase is missing"; }
    this.$placeholder = $(placeholderBase);
    this.syncSettingsToPlaceholder();
    return this.$placeholder;
  }

  syncPlaceholderToSettings() {
    var value;
    var $placeholder = this.getPlaceholder();
    var settings = this.getSettings();
    settings.attributes = {};
    $.each(Drupal.settings.media.wysiwygAllowedAttributes, function(i, allowed_attribute) {
      if ((value = $placeholder.attr(allowed_attribute))) {
        if (typeof value == 'string') { value = value.replace('&quot;', '\\"'); }
        settings.attributes[allowed_attribute] = value;
      }
    });
    this.syncAttributesToFields();
    settings.link_text = (Drupal.settings.media.doLinkText)
      ? $placeholder.find('a:not(:has(img))').html() : false;
    this.setPlaceholderBase(Drupal.media.utils.outerHTML($placeholder));
    this.token = '';
    this.key = '';
  }

  setPlaceholder: function($placeholder) {
    this.$placeholder = $placeholder;
    this.placeholderBase = Drupal.media.utils.outerHTML($placeholder);
    this.syncPlaceholderToSettings();
  }
  \<close>
  \<open>$element[0]\<close> of a jQuery object without elements is \<open>undefined\<close>, and reading its
  \<open>outerHTML\<close> throws a \<open>TypeError\<close>.
\<close>

definition setPlaceholderBase :: "jsstring \<Rightarrow> media_instance \<Rightarrow> media_instance" where
  "setPlaceholderBase html this = this\<lparr>placeholderBase := html\<rparr>"

definition getPlaceholderBase :: "env \<Rightarrow> media_instance \<Rightarrow> error + (jsstring \<times> media_instance)" where
  "getPlaceholderBase cfg this =
     (if placeholderBase this = [] then
        (case getKey cfg this of
           Inl e \<Rightarrow> Inl e
         | Inr (k, this1) \<Rightarrow>
             (let base = (case map_of (tagMap cfg) k of None \<Rightarrow> [] | Some html \<Rightarrow> html) in
              if base = [] then Inl MissingPlaceholder
              else
                (let base' = (if length (html_text cfg base) = length base
                              then lit ''<span>'' @ base @ lit ''</span>'' else base)
                 in Inr (base', this1\<lparr>placeholderBase := base'\<rparr>))))
      else Inr (placeholderBase this, this))"

definition outerHTML :: "env \<Rightarrow> jq \<Rightarrow> error + jsstring" where
  "outerHTML cfg el = (case el of [] \<Rightarrow> Inl TypeError | e # rest \<Rightarrow> Inr (outerHTML_of cfg e))"

definition getPlaceholder :: "env \<Rightarrow> media_instance \<Rightarrow> error + (jq \<times> media_instance)" where
  "getPlaceholder cfg this =
     (case placeholder this of
        Some p \<Rightarrow> Inr (p, this)
      | None \<Rightarrow>
          (case getPlaceholderBase cfg this of
             Inl e \<Rightarrow> Inl e
           | Inr (base, this1) \<Rightarrow>
               if base = [] then Inl NoPlaceholderBase
               else (case placeholder_from_base cfg base this1 of
                       Inl e \<Rightarrow> Inl e
                     | Inr (p, this2) \<Rightarrow> Inr (p, this2\<lparr>placeholder := Some p\<rparr>))))"

fun read_allowed_attributes ::
  "jq \<Rightarrow> jsstring list \<Rightarrow> (jsstring \<times> jsval) list \<Rightarrow> (jsstring \<times> jsval) list" where
  "read_allowed_attributes p [] attributes = attributes"
| "read_allowed_attributes p (allowed_attribute # rest) attributes =
     read_allowed_attributes p rest
       (case jq_attr p allowed_attribute of
          None \<Rightarrow> attributes
        | Some v \<Rightarrow>
            if v = [] then attributes
            else AList.update allowed_attribute
                   (JStr (js_replace (lit ''&quot;'') [0x5C, 0x22] v)) attributes)"

definition syncPlaceholderToSettings :: "env \<Rightarrow> media_instance \<Rightarrow> error + media_instance" where
  "syncPlaceholderToSettings cfg this =
     (case getPlaceholder cfg this of
        Inl e \<Rightarrow> Inl e
      | Inr (p, this1) \<Rightarrow>
     (case getSettings cfg this1 of
        Inl e \<Rightarrow> Inl e
      | Inr (s, this2) \<Rightarrow>
     (case js_set s (lit ''attributes'')
             (JObj (read_allowed_attributes p (wysiwygAllowedAttributes cfg) [])) of
        Inl e \<Rightarrow> Inl e
      | Inr s1 \<Rightarrow>
     (case syncAttributesToFields cfg False (this2\<lparr>settings := s1\<rparr>) of
        Inl e \<Rightarrow> Inl e
      | Inr this3 \<Rightarrow>
     (case js_set (settings this3) (lit ''link_text'')
             (if doLinkText cfg then link_html cfg p else JBool False) of
        Inl e \<Rightarrow> Inl e
      | Inr s2 \<Rightarrow>
     (case outerHTML cfg p of
        Inl e \<Rightarrow> Inl e
      | Inr html \<Rightarrow>
          Inr ((setPlaceholderBase html (this3\<lparr>settings := s2\<rparr>))\<lparr>token := [], key := []\<rparr>)))))))"

definition setPlaceholder :: "env \<Rightarrow> jq \<Rightarrow> media_instance \<Rightarrow> error + media_instance" where
  "setPlaceholder cfg p this =
     (case outerHTML cfg p of
        Inl e \<Rightarrow> Inl e
      | Inr html \<Rightarrow>
          syncPlaceholderToSettings cfg (this\<lparr>placeholder := Some p, placeholderBase := html\<rparr>))"

section \<open>Drupal.media.utils.getMediaAlignment and alignMedia\<close>

text \<open>
  \<^verbatim>\<open>
  getMediaAlignment: function ($element) {
    var alignRe = /(?:.*\s+)?media-wysiwyg-align-(right|left|center)(?:s+.*)?/;
    var align = null;
    if ((align = $element.attr('class').match(alignRe))) { return align[1]; }
    var tagName = $element[0].tagName.toLowerCase();
    if (tagName == 'img' || tagName == 'div') {
      align = $element.css('float');
      if (align == 'left' || align == 'right') { return align; }
      align = $element.attr('align');
      if (align == 'left' || align == 'right') { return align; }
    }
    return null;
  }
  \<close>
  The regular expression is not anchored. At each start position, from the left, the
  engine first tries the optional group \<open>.*\s+\<close>, both parts greedy (the longest run
  of \<open>.\<close> first, then the longest run of white space), followed by the literal
  \<open>media-wysiwyg-align-\<close> and one of the three words; then the literal at the start
  position itself. The optional tail \<open>(?:s+.*)?\<close> always matches. \<open>align_capture\<close> is
  the literal with its captured word at the head of a string, \<open>spaces_then_align\<close> is
  \<open>\s+\<close> followed by it, \<open>any_then_spaces_then_align\<close> the whole group followed by
  it, \<open>alignRe_at\<close> a match attempt at one start position and \<open>alignRe_match\<close> the
  search over the start positions; the result is the captured word.
\<close>

definition align_capture :: "jsstring \<Rightarrow> jsstring option" where
  "align_capture s =
     (if prefix (lit ''media-wysiwyg-align-right'') s then Some (lit ''right'')
      else if prefix (lit ''media-wysiwyg-align-left'') s then Some (lit ''left'')
      else if prefix (lit ''media-wysiwyg-align-center'') s then Some (lit ''center'')
      else None)"

fun spaces_then_align :: "jsstring \<Rightarrow> jsstring option" where
  "spaces_then_align [] = None"
| "spaces_then_align (c # cs) =
     (if is_space c
      then (case spaces_then_align cs of Some a \<Rightarrow> Some a | None \<Rightarrow> align_capture cs)
      else None)"

fun any_then_spaces_then_align :: "jsstring \<Rightarrow> jsstring option" where
  "any_then_spaces_then_align [] = None"
| "any_then_spaces_then_align (c # cs) =
     (if \<not> is_line_terminator c
      then (case any_then_spaces_then_align cs of
              Some a \<Rightarrow> Some a
            | None \<Rightarrow> spaces_then_align (c # cs))
      else spaces_then_align (c # cs))"

definition alignRe_at :: "jsstring \<Rightarrow> jsstring option" where
  "alignRe_at s = (case any_then_spaces_then_align s of Some a \<Rightarrow> Some a | None \<Rightarrow> align_capture s)"

fun alignRe_match :: "jsstring \<Rightarrow> jsstring option" where
  "alignRe_match [] = None"
| "alignRe_match (c # cs) =
     (case alignRe_at (c # cs) of Some a \<Rightarrow> Some a | None \<Rightarrow> alignRe_match cs)"

definition getMediaAlignment :: "jq \<Rightarrow> error + jsval" where
  "getMediaAlignment el =
     (case jq_attr el (lit ''class'') of
        None \<Rightarrow> Inl TypeError
      | Some cls \<Rightarrow>
          (case alignRe_match cls of
             Some align \<Rightarrow> Inr (JStr align)
           | None \<Rightarrow>
               (case el of
                  [] \<Rightarrow> Inl TypeError
                | e # rest \<Rightarrow>
                    (let tag = map toLowerCase_unit (tagName e) in
                     if tag = lit ''img'' \<or> tag = lit ''div'' then
                       (if computed_float e = lit ''left'' \<or> computed_float e = lit ''right''
                        then Inr (JStr (computed_float e))
                        else (case jq_attr el (lit ''align'') of
                                Some align \<Rightarrow>
                                  if align = lit ''left'' \<or> align = lit ''right''
                                  then Inr (JStr align) else Inr JNull
                              | None \<Rightarrow> Inr JNull))
                     else Inr JNull))))"

text \<open>
  \<^verbatim>\<open>
  alignMedia: function ($element, value, toggle) {
    if (!$element.hasClass('media-element')) { return false; }
    var currentAlignment = this.getMediaAlignment($element);
    if (currentAlignment == value) {
      if (toggle) { resetAlignment($element); return false; }
      return true;
    }
    else {
      if (currentAlignment) { resetAlignment($element); }
      setAlignment($element, value);
      return true;
    }
    function resetAlignment($element) {
      $element.removeClass('media-wysiwyg-align-' + currentAlignment)
        .removeAttr('data-picture-align').css('float', '').removeAttr('float');
    }
    function setAlignment($element, value) {
      var mediaInstance, settings;
      $element.addClass('media-wysiwyg-align-' + value);
      if ((mediaInstance = Drupal.media.filter.getMediaInstanceFromElement($element))) {
        settings = mediaInstance.getSettings();
        settings.alignment = value;
      }
    }
  }
  \<close>
  The function changes the element in place and returns a boolean; the model returns the
  boolean, the element and the linked instance as the call leaves them.
  \<open>Drupal.media.filter.getMediaInstanceFromElement\<close> belongs to the filter script, which
  is not among the sources: what it finds for the element is the argument
  \<open>mediaInstance\<close> (\<open>None\<close> when it finds nothing). \<open>value\<close> is a string, as documented.
\<close>

definition resetAlignment :: "jsval \<Rightarrow> jq \<Rightarrow> jq" where
  "resetAlignment currentAlignment el =
     jq_removeAttr (lit ''float'')
       (jq_css_float_set []
         (jq_removeAttr (lit ''data-picture-align'')
           (jq_removeClass (lit ''media-wysiwyg-align-'' @ ToString currentAlignment) el)))"

definition setAlignment ::
  "env \<Rightarrow> jq \<Rightarrow> jsstring \<Rightarrow> media_instance option \<Rightarrow> error + (jq \<times> media_instance option)" where
  "setAlignment cfg el v mediaInstance =
     (let el' = jq_addClass (lit ''media-wysiwyg-align-'' @ v) el in
      case mediaInstance of
        None \<Rightarrow> Inr (el', None)
      | Some inst \<Rightarrow>
          (case getSettings cfg inst of
             Inl e \<Rightarrow> Inl e
           | Inr (s, inst1) \<Rightarrow>
               (case js_set s (lit ''alignment'') (JStr v) of
                  Inl e \<Rightarrow> Inl e
                | Inr s' \<Rightarrow> Inr (el', Some (inst1\<lparr>settings := s'\<rparr>)))))"

definition alignMedia ::
  "env \<Rightarrow> jq \<Rightarrow> jsstring \<Rightarrow> bool \<Rightarrow> media_instance option \<Rightarrow>
     error + (bool \<times> jq \<times> media_instance option)" where
  "alignMedia cfg el v toggle mediaInstance =
     (if \<not> jq_hasClass el (lit ''media-element'') then Inr (False, el, mediaInstance)
      else case getMediaAlignment el of
        Inl e \<Rightarrow> Inl e
      | Inr currentAlignment \<Rightarrow>
          if currentAlignment = JStr v then
            (if toggle then Inr (False, resetAlignment currentAlignment el, mediaInstance)
             else Inr (True, el, mediaInstance))
          else
            (case setAlignment cfg
                    (if truthy currentAlignment then resetAlignment currentAlignment el else el)
                    v mediaInstance of
               Inl e \<Rightarrow> Inl e
             | Inr (el', mediaInstance') \<Rightarrow> Inr (True, el', mediaInstance')))"

section \<open>Notions used in the statements, and sample data\<close>

text \<open>The settings property that \<open>propertyStartsWith\<close> locates for an entry of the
  attribute table; an attribute that is absent from an attributes object or truthy there;
  the value the attributes-to-fields direction stores for an attribute.\<close>

definition located_field :: "(jsstring \<times> jsval) list \<Rightarrow> jsstring \<times> jsstring \<Rightarrow> jsval" where
  "located_field ps af = propertyStartsWith (snd af @ lit ''['') (JObj ps)"

definition truthy_or_absent :: "(jsstring \<times> jsval) list \<Rightarrow> jsstring \<Rightarrow> bool" where
  "truthy_or_absent as a = (case map_of as a of None \<Rightarrow> True | Some v \<Rightarrow> truthy v)"

definition attribute_value :: "(jsstring \<times> jsval) list \<Rightarrow> jsstring \<Rightarrow> jsval" where
  "attribute_value as a = (if truthy (js_get (JObj as) a) then js_get (JObj as) a else JStr [])"

text \<open>The invariant that ties the memoised key to the cached token: the constructor
  leaves both empty, and \<open>key\<close> is only ever assigned \<open>createKey\<close> of the token that
  \<open>getToken\<close> has just cached.\<close>

definition key_consistent :: "media_instance \<Rightarrow> bool" where
  "key_consistent this = (key this = [] \<or> (token this \<noteq> [] \<and> key this = createKey (token this)))"

text \<open>
  A page to run the operations on: a schema that requires \<open>type\<close> and \<open>fid\<close> and
  defaults \<open>view_mode\<close> to \<open>"default"\<close>, \<open>attributes\<close> to \<open>{}\<close> and \<open>link_text\<close>
  to \<open>null\<close>; the attributes \<open>alt\<close> and \<open>title\<close> fed by fields of images; file 42, an
  image. Its \<open>JSON.parse\<close> and \<open>JSON.stringify\<close> are given on the two token texts below,
  where they agree with the browser's.
\<close>

definition demo_schema :: "(jsstring \<times> schema_prop) list" where
  "demo_schema =
     [(lit ''type'', \<lparr>required = True, default_val = JUndefined\<rparr>),
      (lit ''fid'', \<lparr>required = True, default_val = JUndefined\<rparr>),
      (lit ''view_mode'', \<lparr>required = False, default_val = JStr (lit ''default'')\<rparr>),
      (lit ''attributes'', \<lparr>required = False, default_val = JObj []\<rparr>),
      (lit ''link_text'', \<lparr>required = False, default_val = JNull\<rparr>)]"

definition demo_token :: jsstring where
  "demo_token = lit ''[[{\"type\":\"media\",\"fid\":42,\"view_mode\":\"full\",\"attributes\":{\"alt\":\"x\",\"class\":\"media-element file-full\"},\"link_text\":\"a<b\"}]]''"

definition demo_settings :: jsval where
  "demo_settings =
     JObj [(lit ''type'', JStr (lit ''media'')),
           (lit ''fid'', JNum 42),
           (lit ''view_mode'', JStr (lit ''full'')),
           (lit ''attributes'',
              JObj [(lit ''alt'', JStr (lit ''x'')), (lit ''class'', JStr (lit ''media-element file-full''))]),
           (lit ''link_text'', JStr (lit ''a<b''))]"

definition demo_token2 :: jsstring where
  "demo_token2 = lit ''[[{\"type\":\"media\",\"fid\":42,\"view_mode\":\"full\",\"link_text\":\"a&lt;b\"}]]''"

definition demo_settings2 :: jsval where
  "demo_settings2 =
     JObj [(lit ''type'', JStr (lit ''media'')),
           (lit ''fid'', JNum 42),
           (lit ''view_mode'', JStr (lit ''full'')),
           (lit ''link_text'', JStr (lit ''a&lt;b''))]"

definition demo_parse :: "jsstring \<Rightarrow> error + jsval" where
  "demo_parse text =
     (if lit ''[['' @ text @ lit '']]'' = demo_token then Inr demo_settings
      else if lit ''[['' @ text @ lit '']]'' = demo_token2 then Inr demo_settings2
      else Inl SyntaxError)"

definition demo_stringify :: "jsval \<Rightarrow> jsstring" where
  "demo_stringify v =
     (if v = demo_settings then take (length demo_token - 4) (drop 2 demo_token)
      else if v = demo_settings2 then take (length demo_token2 - 4) (drop 2 demo_token2)
      else [])"

definition demo_env :: env where
  "demo_env =
     \<lparr>tokenSchema = demo_schema,
      attributeFields =
        [(lit ''alt'', lit ''field_file_image_alt_text''),
         (lit ''title'', lit ''field_file_image_title_text'')],
      wysiwygAllowedAttributes = [lit ''alt'', lit ''title'', lit ''class''],
      overridableFields =
        [(lit ''image'',
          [(lit ''field_file_image_alt_text'', JBool True),
           (lit ''field_file_image_title_text'', JBool True)])],
      fidTypeMap = [(lit ''42'', JStr (lit ''image''))],
      tagMap = [],
      doLinkText = False,
      JSON_parse = demo_parse,
      JSON_stringify = demo_stringify,
      html_text = (\<lambda>html. if html = lit ''Some file'' then html else []),
      outerHTML_of = (\<lambda>e. lit ''<img>''),
      link_html = (\<lambda>q. JUndefined),
      placeholder_from_base = (\<lambda>html this. Inl NoPlaceholder)\<rparr>"

definition demo_instance :: media_instance where
  "demo_instance =
     \<lparr>token = demo_token, settings = JNull, key = [], placeholderBase = [], placeholder = None\<rparr>"

definition demo_img :: "jsstring \<Rightarrow> element" where
  "demo_img cls =
     \<lparr>tagName = lit ''IMG'', attrs = [(lit ''class'', cls), (lit ''alt'', lit ''hello'')],
      computed_float = lit ''none'', inline_float = []\<rparr>"

text \<open>An instance whose \<open>alt\<close> attribute is the empty string, with both image fields
  among its settings; and one without any field property.\<close>

definition demo_empty_alt :: media_instance where
  "demo_empty_alt =
     \<lparr>token = [],
      settings =
        JObj [(lit ''type'', JStr (lit ''media'')),
              (lit ''fid'', JNum 42),
              (lit ''attributes'', JObj [(lit ''alt'', JStr [])]),
              (lit ''field_file_image_alt_text[und][0][value]'', JStr (lit ''old'')),
              (lit ''field_file_image_title_text[und][0][value]'', JStr [])],
      key = [], placeholderBase = [], placeholder = None\<rparr>"

definition demo_no_fields :: "(jsstring \<times> jsval) list" where
  "demo_no_fields =
     [(lit ''type'', JStr (lit ''media'')),
      (lit ''fid'', JNum 42),
      (lit ''attributes'', JObj [(lit ''alt'', JStr (lit ''x''))])]"

definition demo_with_fields :: media_instance where
  "demo_with_fields =
     \<lparr>token = [],
      settings =
        JObj [(lit ''type'', JStr (lit ''media'')),
              (lit ''fid'', JNum 42),
              (lit ''attributes'', JObj [(lit ''alt'', JStr (lit ''x'')), (lit ''width'', JNum 100)]),
              (lit ''field_file_image_alt_text[und][0][value]'', JStr (lit ''old'')),
              (lit ''field_file_image_title_text[und][0][value]'', JStr (lit ''t''))],
      key = [], placeholderBase = [], placeholder = None\<rparr>"

text \<open>The instance of the sample token once its settings and key are resolved, and the
  sample page with one rendered fragment in its token-to-HTML map.\<close>

definition demo_keyed :: media_instance where
  "demo_keyed = demo_instance\<lparr>settings := demo_settings, key := lit ''token-1952726427''\<rparr>"

definition demo_tagged :: "jsstring \<Rightarrow> env" where
  "demo_tagged html = demo_env\<lparr>tagMap := [(lit ''token-1952726427'', html)]\<rparr>"

text \<open>A class token: a non-empty string without white space; a string without white
  space; what \<open>resetAlignment\<close> does to one element; the three words the alignment
  expression captures.\<close>

definition class_token :: "jsstring \<Rightarrow> bool" where
  "class_token t = (t \<noteq> [] \<and> list_all (\<lambda>c. \<not> is_class_space c) t)"

definition no_class_space :: "jsstring \<Rightarrow> bool" where
  "no_class_space v = list_all (\<lambda>c. \<not> is_class_space c) v"

definition resetAlignment_element :: "jsstring \<Rightarrow> element \<Rightarrow> element" where
  "resetAlignment_element cls e =
     (let e1 = el_removeClass cls e;
          e2 = e1\<lparr>attrs := AList.delete (lit ''data-picture-align'') (attrs e1)\<rparr>;
          e3 = e2\<lparr>inline_float := []\<rparr>
      in e3\<lparr>attrs := AList.delete (lit ''float'') (attrs e3)\<rparr>)"

definition alignment_word :: "jsstring \<Rightarrow> bool" where
  "alignment_word a = (a = lit ''right'' \<or> a = lit ''left'' \<or> a = lit ''center'')"

text \<open>
  The round trip of a token through the serializer: the token is parsed and verified
  (\<open>getSettings\<close> on the instance built from the token), the resolved settings are
  serialized (\<open>getToken\<close> on an instance built from the settings object; on the instance
  built from the token \<open>getToken\<close> would return the cached token and serialize nothing),
  and the new token is parsed and verified again. The result is the pair of the resolved
  settings before and after.
\<close>

definition token_instance :: "jsstring \<Rightarrow> media_instance" where
  "token_instance t = \<lparr>token = t, settings = JNull, key = [], placeholderBase = [], placeholder = None\<rparr>"

definition settings_instance :: "jsval \<Rightarrow> media_instance" where
  "settings_instance s = \<lparr>token = [], settings = s, key = [], placeholderBase = [], placeholder = None\<rparr>"

definition roundtrip :: "env \<Rightarrow> jsstring \<Rightarrow> error + (jsval \<times> jsval)" where
  "roundtrip cfg t =
     bindE (WysiwygInstance cfg (JStr t) []) (\<lambda>(a, cfg1).
     bindE (getSettings cfg1 a) (\<lambda>(s, a1).
     bindE (WysiwygInstance cfg1 s []) (\<lambda>(b, cfg2).
     bindE (getToken cfg2 b) (\<lambda>(t', b1).
     bindE (WysiwygInstance cfg2 (JStr t') []) (\<lambda>(c, cfg3).
     bindE (getSettings cfg3 c) (\<lambda>(s', c1). Inr (s, s')))))))"

section \<open>Verification of the hash\<close>

subsection \<open>The hash is the 31-bit rolling hash\<close>

lemma sint_mod31: "sint (w :: 32 word) mod 2 ^ 31 = uint w mod 2 ^ 31"
proof -
  have "take_bit 31 (sint w) = take_bit 31 (uint w)"
    by (simp add: sint_uint take_bit_signed_take_bit)
  then show ?thesis by (simp add: take_bit_eq_mod)
qed

lemma mod32_mod31: "(x mod 4294967296) mod 2147483648 = (x :: int) mod 2147483648"
  by (rule mod_mod_cancel) simp

lemma js_bitand_mask31: "js_bitand x 0x7fffffff = x mod 2 ^ 31"
proof -
  have m: "(0x7fffffff :: 32 word) = mask 31" by (simp add: mask_eq_exp_minus_1)
  have "ToInt32 0x7fffffff = (mask 31 :: 32 word)" by (simp add: ToInt32_def m)
  then have "js_bitand x 0x7fffffff = sint (take_bit 31 (word_of_int x :: 32 word))"
    by (simp add: js_bitand_def ToInt32_def take_bit_eq_mask)
  also have "\<dots> = take_bit 31 (uint (word_of_int x :: 32 word))"
    by (simp add: sint_uint unsigned_take_bit_eq signed_take_bit_take_bit)
  also have "\<dots> = x mod 2 ^ 31"
    by (simp add: uint_word_of_int take_bit_eq_mod mod32_mod31)
  finally show ?thesis .
qed

lemma js_shl5_mod: "js_shl h 5 mod 2 ^ 31 = (32 * h) mod 2 ^ 31"
proof -
  have "js_shl h 5 mod 2 ^ 31 = uint (push_bit 5 (word_of_int h :: 32 word)) mod 2 ^ 31"
    using sint_mod31[of "push_bit 5 (word_of_int h)"] by (simp add: js_shl_def ToInt32_def)
  also have "push_bit 5 (word_of_int h :: 32 word) = word_of_int (32 * h)"
    by (simp add: push_bit_eq_mult mult.commute)
  also have "uint (word_of_int (32 * h) :: 32 word) mod 2 ^ 31 = (32 * h) mod 2 ^ 31"
    unfolding uint_word_of_int using mod32_mod31[of "32 * h"] by simp
  finally show ?thesis .
qed

lemma hash_step_eq:
  "js_bitand ((js_shl h 5 - h) + charCode c) 0x7fffffff = (31 * h + uint c) mod 2 ^ 31"
proof -
  have "(js_shl h 5 - h + uint c) mod 2 ^ 31 = (js_shl h 5 mod 2 ^ 31 - h + uint c) mod 2 ^ 31"
    by (metis mod_add_left_eq mod_diff_left_eq)
  also have "\<dots> = (32 * h - h + uint c) mod 2 ^ 31"
    unfolding js_shl5_mod by (metis mod_add_left_eq mod_diff_left_eq)
  finally show ?thesis by (simp add: js_bitand_mask31 charCode_def)
qed

lemma hashCode_loop_ref:
  "hashCode_loop h s = foldl (\<lambda>h c. (31 * h + uint c) mod 2 ^ 31) h s"
  by (induction s arbitrary: h) (simp_all add: hash_step_eq)

lemma hashCode_ref: "hashCode s = ref_hash31 s"
  by (simp add: hashCode_def ref_hash31_def hashCode_loop_ref)

lemma hashCode_loop_snoc:
  "hashCode_loop h (s @ [c]) =
     js_bitand ((js_shl (hashCode_loop h s) 5 - hashCode_loop h s) + charCode c) 0x7fffffff"
  by (induction s arbitrary: h) simp_all

lemma hashCode_loop_range:
  "0 \<le> h \<Longrightarrow> h \<le> 0x7fffffff \<Longrightarrow>
     0 \<le> hashCode_loop h s \<and> hashCode_loop h s \<le> 0x7fffffff"
proof (induction s arbitrary: h)
  case Nil
  then show ?case by simp
next
  case (Cons c cs)
  have "0 \<le> (31 * h + uint c) mod 2 ^ 31" "(31 * h + uint c) mod 2 ^ 31 < 2 ^ 31"
    by simp_all
  then show ?case using Cons.IH[of "(31 * h + uint c) mod 2 ^ 31"]
    by (simp add: hash_step_eq)
qed

text \<open>
  Claim C1. \<open>hashCode\<close> of the empty string is 0; for every string the result lies in
  \<open>[0, 0x7fffffff]\<close>; reading one more code unit \<open>c\<close> after \<open>s\<close> applies
  \<open>hash = ((hash << 5) - hash + c) & 0x7fffffff\<close> to the hash of \<open>s\<close>, so the hash is
  computed left to right from 0 by that recurrence; it agrees with the reference 31-bit
  rolling hash on every string, and in particular on the sample strings \<open>abc\<close> (96354) and
  \<open>hello world\<close> (1794106052).
\<close>

theorem hashCode_spec:
  "hashCode [] = 0
   \<and> 0 \<le> hashCode s \<and> hashCode s \<le> 0x7fffffff
   \<and> hashCode (s @ [c]) =
       js_bitand ((js_shl (hashCode s) 5 - hashCode s) + charCode c) 0x7fffffff
   \<and> hashCode s = ref_hash31 s
   \<and> hashCode (lit ''abc'') = 96354
   \<and> hashCode (lit ''hello world'') = 1794106052"
proof -
  have a: "hashCode [] = 0" by (simp add: hashCode_def)
  have b: "0 \<le> hashCode s \<and> hashCode s \<le> 0x7fffffff"
    using hashCode_loop_range[of 0 s] by (simp add: hashCode_def)
  have c: "hashCode (s @ [c]) =
      js_bitand ((js_shl (hashCode s) 5 - hashCode s) + charCode c) 0x7fffffff"
    using hashCode_loop_snoc[of 0 s c] by (cases s) (simp_all add: hashCode_def)
  have d: "hashCode (lit ''abc'') = 96354" by code_simp
  have e: "hashCode (lit ''hello world'') = 1794106052" by code_simp
  show ?thesis using a b c d e hashCode_ref by blast
qed

section \<open>Objects: reading after writing\<close>

lemma js_get_update [simp]:
  "js_get (JObj (AList.update k v ps)) p = (if p = k then v else js_get (JObj ps) p)"
  by (simp add: js_get_def update_conv')

lemma js_get_delete [simp]:
  "js_get (JObj (AList.delete k ps)) p = (if p = k then JUndefined else js_get (JObj ps) p)"
  by (simp add: js_get_def delete_conv')

lemma update_fresh: "k \<notin> fst ` set al \<Longrightarrow> AList.update k v al = al @ [(k, v)]"
  by (induction al) auto

lemma update_keys_same: "k \<in> fst ` set al \<Longrightarrow> map fst (AList.update k v al) = map fst al"
  by (simp add: update_keys)

lemmas demo_defs = demo_env_def demo_schema_def demo_token_def demo_settings_def demo_token2_def
  demo_settings2_def demo_parse_def demo_stringify_def demo_instance_def demo_img_def

subsection \<open>copyAsNew of a value without undefined properties is an equal value\<close>

lemma extend_deep_plain:
  "list_all (\<lambda>kv. snd kv \<noteq> JUndefined \<and> plain (snd kv)) ps \<Longrightarrow> distinct (map fst ps) \<Longrightarrow>
   fst ` set ps \<inter> fst ` set target = {} \<Longrightarrow> extend_deep target ps = target @ ps"
proof (induction target ps rule: extend_deep.induct)
  case (1 target)
  then show ?case by simp
next
  case (2 target name copy options)
  have fresh: "name \<notin> fst ` set target" using 2(5) by auto
  then have none: "map_of target name = None" by (simp add: map_of_eq_None_iff)
  have rest: "list_all (\<lambda>kv. snd kv \<noteq> JUndefined \<and> plain (snd kv)) options"
    "distinct (map fst options)" "name \<notin> fst ` set options"
    using 2(3,4) by auto
  have disj: "fst ` set options \<inter> fst ` set (target @ [(name, v)]) = {}" for v
    using 2(5) rest(3) by auto
  show ?case
  proof (cases copy)
    case (JObj qs)
    have q: "list_all (\<lambda>kv. snd kv \<noteq> JUndefined \<and> plain (snd kv)) qs" "distinct (map fst qs)"
      using 2(3) JObj by auto
    have inner: "extend_deep [] qs = qs"
      using 2(1)[OF JObj q] none by simp
    have "extend_deep (target @ [(name, JObj qs)]) options = (target @ [(name, JObj qs)]) @ options"
      using 2(2)[OF rest(1,2)] disj JObj inner none fresh by (simp add: update_fresh)
    then show ?thesis using JObj inner none fresh by (simp add: update_fresh)
  next
    case JUndefined
    then show ?thesis using 2(3) by simp
  qed (use 2(2)[OF rest(1,2)] disj fresh in \<open>simp_all add: update_fresh\<close>)
qed

lemma copyAsNew_plain: "plain v \<Longrightarrow> copyAsNew v = v"
  using extend_deep_plain[of _ "[]"] by (cases v) (simp_all add: copyAsNew_def)

section \<open>Settings verification\<close>

lemma verifySettings_each_required:
  "map_of sch p = Some sp \<Longrightarrow> required sp \<Longrightarrow> \<not> truthy (js_get (JObj ps) p) \<Longrightarrow>
   \<exists>q. verifySettings_each sch (JObj ps) = Inl (MissingRequired q)"
proof (induction sch arbitrary: ps)
  case Nil
  then show ?case by simp
next
  case (Cons a sch)
  obtain k sk where a: "a = (k, sk)" by (cases a)
  show ?case
  proof (cases "k = p")
    case True
    then show ?thesis using Cons.prems a by simp
  next
    case False
    then have m: "map_of sch p = Some sp" using Cons.prems(1) a by simp
    have "\<not> truthy (js_get (JObj (AList.update k v ps)) p)" for v
      using False Cons.prems(3) by simp
    then show ?thesis
      using Cons.IH[OF m Cons.prems(2)] Cons.prems(3) a by simp
  qed
qed

lemma verifySettings_each_get:
  "distinct (map fst sch) \<Longrightarrow> verifySettings_each sch (JObj ps) = Inr s' \<Longrightarrow>
   js_get s' k =
     (case map_of sch k of
        Some sp \<Rightarrow> if \<not> required sp \<and> \<not> truthy (js_get (JObj ps) k)
                   then copyAsNew (default_val sp) else js_get (JObj ps) k
      | None \<Rightarrow> js_get (JObj ps) k)"
proof (induction sch arbitrary: ps)
  case Nil
  then show ?case by simp
next
  case (Cons a sch)
  obtain p sp where a: "a = (p, sp)" by (cases a)
  have d: "distinct (map fst sch)" and notin: "p \<notin> fst ` set sch"
    using Cons.prems(1) a by auto
  then have none: "map_of sch p = None" by (simp add: map_of_eq_None_iff)
  show ?case
  proof (cases "\<not> required sp \<and> \<not> truthy (js_get (JObj ps) p)")
    case True
    then have r: "verifySettings_each sch (JObj (AList.update p (copyAsNew (default_val sp)) ps)) = Inr s'"
      using Cons.prems(2) a by simp
    show ?thesis using Cons.IH[OF d r] a none True by (cases "k = p") (simp_all split: option.split)
  next
    case False
    then have r: "verifySettings_each sch (JObj ps) = Inr s'"
      using Cons.prems(2) a by (auto split: if_splits)
    show ?thesis using Cons.IH[OF d r] a none False by (cases "k = p") (auto split: option.split)
  qed
qed

lemma verifySettings_each_total:
  "\<forall>x \<in> set sch. required (snd x) \<longrightarrow> truthy (js_get (JObj ps) (fst x)) \<Longrightarrow> distinct (map fst sch) \<Longrightarrow>
   \<exists>ps'. verifySettings_each sch (JObj ps) = Inr (JObj ps')"
proof (induction sch arbitrary: ps)
  case Nil
  then show ?case by simp
next
  case (Cons a sch)
  obtain p sp where a: "a = (p, sp)" by (cases a)
  have notin: "p \<notin> fst ` set sch" and d: "distinct (map fst sch)" using Cons.prems(2) a by auto
  have keep: "\<forall>x \<in> set sch. required (snd x) \<longrightarrow> truthy (js_get (JObj (AList.update p v ps)) (fst x))" for v
    using Cons.prems(1) notin by (auto simp: a)
  have same: "\<forall>x \<in> set sch. required (snd x) \<longrightarrow> truthy (js_get (JObj ps) (fst x))"
    using Cons.prems(1) by simp
  show ?case
    using Cons.IH[OF keep d] Cons.IH[OF same d] Cons.prems(1) a by simp
qed

text \<open>
  Claim C9. Verification tests presence by truthiness, not by the existence of the
  property: when a property \<open>p\<close> of the schema is present in the settings with a falsy
  value (\<open>0\<close>, the empty string, \<open>false\<close>, \<open>null\<close>, \<open>undefined\<close>), then, if \<open>p\<close>
  is required, \<open>verifySettings\<close> throws the missing-required-property error, and if \<open>p\<close>
  is optional, every successful verification leaves \<open>p\<close> overwritten with the copy of the
  schema's default. (The schema is an object: its property names are pairwise different.)
\<close>

theorem verifySettings_truthiness:
  assumes "distinct (map fst (tokenSchema cfg))"
    and "map_of (tokenSchema cfg) p = Some sp"
    and "map_of ps p = Some v" and "\<not> truthy v"
  shows "(required sp \<longrightarrow> (\<exists>q. verifySettings cfg (JObj ps) = Inl (MissingRequired q)))
       \<and> (\<not> required sp \<longrightarrow>
            (\<forall>s'. verifySettings cfg (JObj ps) = Inr s' \<longrightarrow> js_get s' p = copyAsNew (default_val sp)))"
proof -
  have falsy: "\<not> truthy (js_get (JObj ps) p)" using assms(3,4) by (simp add: js_get_def)
  have r: "required sp \<Longrightarrow> \<exists>q. verifySettings cfg (JObj ps) = Inl (MissingRequired q)"
    using verifySettings_each_required[OF assms(2) _ falsy] by (auto simp: verifySettings_def)
  have o: "js_get s' p = copyAsNew (default_val sp)"
    if "\<not> required sp" "verifySettings cfg (JObj ps) = Inr s'" for s'
  proof -
    have "verifySettings_each (tokenSchema cfg) (JObj ps) = Inr s'"
      using that(2) by (auto simp: verifySettings_def split: sum.splits if_splits)
    from verifySettings_each_get[OF assms(1) this, of p] show ?thesis
      using assms(2) that(1) falsy by simp
  qed
  show ?thesis using r o by blast
qed

theorem verifySettings_truthiness_witness:
  "distinct (map fst (tokenSchema demo_env))
   \<and> map_of (tokenSchema demo_env) (lit ''fid'') = Some \<lparr>required = True, default_val = JUndefined\<rparr>
   \<and> map_of [(lit ''type'', JStr (lit ''media'')), (lit ''fid'', JNum 0)] (lit ''fid'') = Some (JNum 0)
   \<and> \<not> truthy (JNum 0)
   \<and> verifySettings demo_env (JObj [(lit ''type'', JStr (lit ''media'')), (lit ''fid'', JNum 0)])
       = Inl (MissingRequired (lit ''fid''))
   \<and> map_of (tokenSchema demo_env) (lit ''view_mode'')
       = Some \<lparr>required = False, default_val = JStr (lit ''default'')\<rparr>
   \<and> map_of [(lit ''type'', JStr (lit ''media'')), (lit ''fid'', JNum 42), (lit ''view_mode'', JStr [])]
         (lit ''view_mode'') = Some (JStr [])
   \<and> \<not> truthy (JStr [])
   \<and> verifySettings demo_env
         (JObj [(lit ''type'', JStr (lit ''media'')), (lit ''fid'', JNum 42), (lit ''view_mode'', JStr [])])
       = Inr (JObj [(lit ''type'', JStr (lit ''media'')), (lit ''fid'', JNum 42),
                    (lit ''view_mode'', JStr (lit ''default'')),
                    (lit ''attributes'', JObj []), (lit ''link_text'', JNull)])"
proof -
  let ?req = "[(lit ''type'', JStr (lit ''media'')), (lit ''fid'', JNum 0)]"
  let ?opt = "[(lit ''type'', JStr (lit ''media'')), (lit ''fid'', JNum 42), (lit ''view_mode'', JStr [])]"
  let ?res = "JObj [(lit ''type'', JStr (lit ''media'')), (lit ''fid'', JNum 42),
                    (lit ''view_mode'', JStr (lit ''default'')),
                    (lit ''attributes'', JObj []), (lit ''link_text'', JNull)]"
  have d: "distinct (map fst (tokenSchema demo_env))" by (simp add: demo_defs lit_def)
  have m1: "map_of (tokenSchema demo_env) (lit ''fid'') = Some \<lparr>required = True, default_val = JUndefined\<rparr>"
    by (simp add: demo_defs lit_def)
  have p1: "map_of ?req (lit ''fid'') = Some (JNum 0)" by (simp add: lit_def)
  have f1: "\<not> truthy (JNum 0)" by simp
  have m2: "map_of (tokenSchema demo_env) (lit ''view_mode'')
       = Some \<lparr>required = False, default_val = JStr (lit ''default'')\<rparr>"
    by (simp add: demo_defs lit_def)
  have p2: "map_of ?opt (lit ''view_mode'') = Some (JStr [])" by (simp add: lit_def)
  have f2: "\<not> truthy (JStr [])" by simp
  have e1: "verifySettings demo_env (JObj ?req) = Inl (MissingRequired (lit ''fid''))"
    by (simp add: verifySettings_def demo_defs lit_def js_get_def)
  have u1: "\<exists>q. verifySettings demo_env (JObj ?req) = Inl (MissingRequired q)"
    using verifySettings_truthiness[OF d m1 p1 f1] by simp
  have e2: "verifySettings demo_env (JObj ?opt) = Inr ?res"
    by (simp add: verifySettings_def demo_defs lit_def js_get_def copyAsNew_def)
  have u2: "js_get ?res (lit ''view_mode'') = copyAsNew (JStr (lit ''default''))"
    using verifySettings_truthiness[OF d m2 p2 f2] e2 by simp
  show ?thesis using u1 u2 d m1 p1 f1 e1 m2 p2 f2 e2 by blast
qed

section \<open>Reconciliation of attributes and fields\<close>

lemmas sync_defs = syncAttributesToFields_def syncFieldsToAttributes_def syncAttributesToFields_settings_def
  syncAttributesToFields_entry_def getSettings_def propertyStartsWith_def located_field_def
  truthy_or_absent_def

lemma psw_loop_keys:
  "map fst ps = map fst qs \<Longrightarrow> propertyStartsWith_loop needle ps = propertyStartsWith_loop needle qs"
proof (induction ps arbitrary: qs)
  case Nil
  then show ?case by simp
next
  case (Cons p ps)
  then obtain q qs' where q: "qs = q # qs'" "fst p = fst q" "map fst ps = map fst qs'" by (cases qs) auto
  then show ?case using Cons.IH[of qs'] by (cases p; cases q) simp
qed

lemma psw_loop_None:
  "propertyStartsWith_loop needle ps = JNull \<longleftrightarrow> (\<forall>k \<in> fst ` set ps. \<not> prefix needle k)"
  by (induction ps) (force split: if_splits)+

lemma psw_loop_Some:
  "propertyStartsWith_loop needle ps \<noteq> JNull \<Longrightarrow>
   \<exists>k. propertyStartsWith_loop needle ps = JStr k \<and> k \<in> fst ` set ps \<and> prefix needle k"
  by (induction ps) (force split: if_splits)+

text \<open>
  Claim C10. In the attributes-to-fields direction, when no property name of the settings
  starts with the field-name prefix \<open>fieldName + '['\<close>, \<open>propertyStartsWith\<close> returns
  \<open>null\<close>, and the callback does not skip the attribute: it assigns the attribute's value,
  or the empty string when the attribute is falsy or absent, to the property of the
  settings that is literally named \<open>null\<close>.
\<close>

theorem syncAttributesToFields_null_property:
  assumes "\<forall>k \<in> fst ` set ps. \<not> prefix (fieldName @ lit ''['') k"
  shows "propertyStartsWith (fieldName @ lit ''['') (JObj ps) = JNull
       \<and> syncAttributesToFields_entry False (attribute, fieldName) (JObj ps) =
           Inr (JObj (AList.update (lit ''null'')
                  (if truthy (js_get (js_get (JObj ps) (lit ''attributes'')) attribute)
                   then js_get (js_get (JObj ps) (lit ''attributes'')) attribute else JStr [])
                  ps))"
  using assms psw_loop_None[of "fieldName @ lit ''[''" ps]
  by (simp add: propertyStartsWith_def syncAttributesToFields_entry_def Let_def)

text \<open>On settings without any field property the value \<open>x\<close> of \<open>alt\<close> lands in a new
  property \<open>null\<close>.\<close>

theorem syncAttributesToFields_null_property_witness:
  "list_all (\<lambda>k. \<not> prefix (lit ''field_file_image_alt_text'' @ lit ''['') k) (map fst demo_no_fields)
   \<and> propertyStartsWith (lit ''field_file_image_alt_text'' @ lit ''['') (JObj demo_no_fields) = JNull
   \<and> syncAttributesToFields_entry False (lit ''alt'', lit ''field_file_image_alt_text'') (JObj demo_no_fields)
       = Inr (JObj (demo_no_fields @ [(lit ''null'', JStr (lit ''x''))]))"
proof -
  have h: "\<forall>k \<in> fst ` set demo_no_fields. \<not> prefix (lit ''field_file_image_alt_text'' @ lit ''['') k"
    by (simp add: demo_no_fields_def lit_def)
  have "AList.update (lit ''null'') (JStr (lit ''x'')) demo_no_fields
          = demo_no_fields @ [(lit ''null'', JStr (lit ''x''))]"
    by (simp add: demo_no_fields_def lit_def)
  moreover have "js_get (js_get (JObj demo_no_fields) (lit ''attributes'')) (lit ''alt'') = JStr (lit ''x'')"
    by (simp add: demo_no_fields_def lit_def js_get_def)
  ultimately show ?thesis
    using syncAttributesToFields_null_property[OF h, of "lit ''alt''"] h
    by (simp add: lit_def list_all_iff)
qed

lemma prefix_bracket_not_attributes:
  assumes "prefix (f @ lit ''['') k"
  shows "k \<noteq> lit ''attributes''"
proof
  assume "k = lit ''attributes''"
  then have "set (f @ lit ''['') \<subseteq> set (lit ''attributes'')"
    using assms set_mono_prefix by blast
  then show False by (simp add: lit_def)
qed

lemma located_field_cases:
  assumes "located_field ps af \<noteq> JNull"
  obtains k where "located_field ps af = JStr k" "k \<in> fst ` set ps" "k \<noteq> lit ''attributes''"
  using psw_loop_Some[of "snd af @ lit ''[''" ps] assms prefix_bracket_not_attributes
  unfolding located_field_def propertyStartsWith_def by auto

lemma located_field_keys:
  "map fst cur = map fst ps \<Longrightarrow> propertyStartsWith (snd af @ lit ''['') (JObj cur) = located_field ps af"
  using psw_loop_keys[of cur ps] by (simp add: located_field_def propertyStartsWith_def)

lemma forward_entry:
  assumes "map fst cur = map fst ps"
    and "map_of cur (lit ''attributes'') = Some (JObj as)"
    and "located_field ps af = JStr k"
  shows "syncAttributesToFields_entry False af (JObj cur) =
           Inr (JObj (AList.update k (attribute_value as (fst af)) cur))"
  using assms located_field_keys[OF assms(1), of af]
  by (simp add: syncAttributesToFields_entry_def Let_def attribute_value_def js_get_def)

lemma forward_pass:
  assumes "map fst cur = map fst ps"
    and "map_of cur (lit ''attributes'') = Some (JObj as)"
    and "\<forall>af \<in> set T. located_field ps af \<noteq> JNull"
  shows "\<exists>fin. syncAttributesToFields_each False T (JObj cur) = Inr (JObj fin)
          \<and> map fst fin = map fst ps
          \<and> map_of fin (lit ''attributes'') = Some (JObj as)
          \<and> (distinct (map (located_field ps) T) \<longrightarrow>
               (\<forall>af \<in> set T. \<forall>k. located_field ps af = JStr k \<longrightarrow>
                  map_of fin k = Some (attribute_value as (fst af))))
          \<and> (\<forall>k. JStr k \<notin> located_field ps ` set T \<longrightarrow> map_of fin k = map_of cur k)"
  using assms
proof (induction T arbitrary: cur)
  case Nil
  then show ?case by simp
next
  case (Cons af T)
  from Cons.prems(3) obtain k where k: "located_field ps af = JStr k" "k \<in> fst ` set ps"
      "k \<noteq> lit ''attributes''"
    using located_field_cases[of ps af] by auto
  let ?cur1 = "AList.update k (attribute_value as (fst af)) cur"
  have kin: "k \<in> fst ` set cur" using k(2) Cons.prems(1) by (metis list.set_map)
  have step: "syncAttributesToFields_entry False af (JObj cur) = Inr (JObj ?cur1)"
    using forward_entry[OF Cons.prems(1,2) k(1)] .
  have keys1: "map fst ?cur1 = map fst ps" using kin Cons.prems(1) by (simp add: update_keys_same)
  have attr1: "map_of ?cur1 (lit ''attributes'') = Some (JObj as)"
    using Cons.prems(2) k(3) by (simp add: update_conv')
  have nn: "\<forall>af \<in> set T. located_field ps af \<noteq> JNull" using Cons.prems(3) by simp
  from Cons.IH[OF keys1 attr1 nn] obtain fin where fin:
    "syncAttributesToFields_each False T (JObj ?cur1) = Inr (JObj fin)"
    "map fst fin = map fst ps"
    "map_of fin (lit ''attributes'') = Some (JObj as)"
    "distinct (map (located_field ps) T) \<longrightarrow>
       (\<forall>af \<in> set T. \<forall>k. located_field ps af = JStr k \<longrightarrow>
          map_of fin k = Some (attribute_value as (fst af)))"
    "\<forall>k. JStr k \<notin> located_field ps ` set T \<longrightarrow> map_of fin k = map_of ?cur1 k"
    by blast
  have run: "syncAttributesToFields_each False (af # T) (JObj cur) = Inr (JObj fin)"
    using step fin(1) by simp
  have d: "\<forall>af' \<in> set (af # T). \<forall>k'. located_field ps af' = JStr k' \<longrightarrow>
             map_of fin k' = Some (attribute_value as (fst af'))"
    if dist: "distinct (map (located_field ps) (af # T))"
  proof (intro ballI allI impI)
    fix af' k' assume a: "af' \<in> set (af # T)" "located_field ps af' = JStr k'"
    show "map_of fin k' = Some (attribute_value as (fst af'))"
    proof (cases "af' \<in> set T")
      case True
      then show ?thesis using fin(4) dist a(2) by simp
    next
      case False
      then have e: "af' = af" using a(1) by simp
      then have kk: "k' = k" using a(2) k(1) by simp
      have "JStr k \<notin> located_field ps ` set T" using dist k(1) by auto
      then have "map_of fin k = map_of ?cur1 k" using fin(5) by blast
      then show ?thesis using e kk by (simp add: update_conv')
    qed
  qed
  have o: "\<forall>k'. JStr k' \<notin> located_field ps ` set (af # T) \<longrightarrow> map_of fin k' = map_of cur k'"
  proof (intro allI impI)
    fix k' assume a: "JStr k' \<notin> located_field ps ` set (af # T)"
    then have "k' \<noteq> k" using k(1) by auto
    moreover have "map_of fin k' = map_of ?cur1 k'" using fin(5) a by auto
    ultimately show "map_of fin k' = map_of cur k'" by (simp add: update_conv')
  qed
  show ?case using run fin(2,3) d o by blast
qed

lemma reverse_entry:
  assumes "map fst cur = map fst ps"
    and "map_of cur (lit ''attributes'') = Some (JObj as)"
    and "located_field ps af = JStr k"
    and "map_of cur k = Some (attribute_value as (fst af))"
    and "truthy_or_absent as (fst af)"
  shows "syncAttributesToFields_entry True af (JObj cur) = Inr (JObj cur)"
proof (cases "map_of as (fst af)")
  case None
  then have "fst af \<notin> fst ` set as" by (simp add: map_of_eq_None_iff)
  then have "AList.delete (fst af) as = as" by simp
  moreover have "attribute_value as (fst af) = JStr []" using None by (simp add: attribute_value_def js_get_def)
  ultimately show ?thesis
    using assms located_field_keys[OF assms(1), of af]
    by (simp add: syncAttributesToFields_entry_def Let_def js_get_def update_triv)
next
  case (Some v)
  then have t: "truthy v" using assms(5) by (simp add: truthy_or_absent_def)
  then have av: "attribute_value as (fst af) = v" using Some by (simp add: attribute_value_def js_get_def)
  have "AList.update (fst af) v as = as" using Some by (simp add: update_triv)
  then show ?thesis
    using assms(1-4) av t located_field_keys[OF assms(1), of af]
    by (simp add: syncAttributesToFields_entry_def Let_def js_get_def update_triv)
qed

lemma reverse_pass:
  assumes "map fst cur = map fst ps"
    and "map_of cur (lit ''attributes'') = Some (JObj as)"
    and "\<forall>af \<in> set T. \<exists>k. located_field ps af = JStr k \<and> map_of cur k = Some (attribute_value as (fst af))"
    and "\<forall>af \<in> set T. truthy_or_absent as (fst af)"
  shows "syncAttributesToFields_each True T (JObj cur) = Inr (JObj cur)"
  using assms(3,4)
proof (induction T)
  case Nil
  then show ?case by simp
next
  case (Cons af T)
  then obtain k where k: "located_field ps af = JStr k" "map_of cur k = Some (attribute_value as (fst af))"
    by auto
  have "syncAttributesToFields_entry True af (JObj cur) = Inr (JObj cur)"
    using reverse_entry[OF assms(1,2) k] Cons.prems(2) by simp
  then show ?case using Cons by simp
qed

text \<open>
  As stated for every settings object, the fixed point fails: an attribute that is present
  but falsy does not survive the two directions. The first direction stores the empty
  string in the field, and the second, finding the field falsy, deletes the attribute.
  Here \<open>alt = ""\<close> is lost.
\<close>

theorem reconcile_counterexample:
  "js_get (settings demo_empty_alt) (lit ''attributes'') = JObj [(lit ''alt'', JStr [])]
   \<and> bindE (syncAttributesToFields demo_env False demo_empty_alt) (syncFieldsToAttributes demo_env)
       = Inr (demo_empty_alt\<lparr>settings :=
               JObj [(lit ''type'', JStr (lit ''media'')),
                     (lit ''fid'', JNum 42),
                     (lit ''attributes'', JObj []),
                     (lit ''field_file_image_alt_text[und][0][value]'', JStr []),
                     (lit ''field_file_image_title_text[und][0][value]'', JStr [])]\<rparr>)"
  by (simp add: bindE_def sync_defs demo_empty_alt_def demo_defs lit_def js_get_def Let_def)

text \<open>
  Claim C5, amended. Let the settings hold an attributes object, let every attribute of the
  table have a settings property that starts with its field-name prefix, let these
  properties be pairwise different, and let every attribute of the table be absent from the
  attributes object or truthy there. Then running the reconciliation in the
  attributes-to-fields direction and then in the fields-to-attributes direction, with
  nothing in between, reproduces the original \<open>settings.attributes\<close>; the second
  direction changes nothing at all.
\<close>

theorem reconcile_fixed_point:
  assumes "settings this = JObj ps"
    and "map_of ps (lit ''attributes'') = Some (JObj as)"
    and "\<forall>af \<in> set (attributeFields cfg). located_field ps af \<noteq> JNull"
    and "distinct (map (located_field ps) (attributeFields cfg))"
    and "\<forall>af \<in> set (attributeFields cfg). truthy_or_absent as (fst af)"
  shows "\<exists>this1. syncAttributesToFields cfg False this = Inr this1
           \<and> syncFieldsToAttributes cfg this1 = Inr this1
           \<and> js_get (settings this1) (lit ''attributes'') = JObj as"
proof -
  from forward_pass[OF refl assms(2,3)] obtain fin where fin:
    "syncAttributesToFields_each False (attributeFields cfg) (JObj ps) = Inr (JObj fin)"
    "map fst fin = map fst ps"
    "map_of fin (lit ''attributes'') = Some (JObj as)"
    "distinct (map (located_field ps) (attributeFields cfg)) \<longrightarrow>
       (\<forall>af \<in> set (attributeFields cfg). \<forall>k. located_field ps af = JStr k \<longrightarrow>
          map_of fin k = Some (attribute_value as (fst af)))"
    by blast
  have attr0: "js_get (JObj ps) (lit ''attributes'') = JObj as" using assms(2) by (simp add: js_get_def)
  have attr1: "js_get (JObj fin) (lit ''attributes'') = JObj as" using fin(3) by (simp add: js_get_def)
  let ?this1 = "this\<lparr>settings := JObj fin\<rparr>"
  have f: "syncAttributesToFields cfg False this = Inr ?this1"
    using assms(1) attr0 fin(1)
    by (simp add: syncAttributesToFields_def getSettings_def syncAttributesToFields_settings_def)
  have located: "\<forall>af \<in> set (attributeFields cfg).
      \<exists>k. located_field ps af = JStr k \<and> map_of fin k = Some (attribute_value as (fst af))"
  proof
    fix af assume a: "af \<in> set (attributeFields cfg)"
    then obtain k where "located_field ps af = JStr k"
      using assms(3) located_field_cases[of ps af] by blast
    then show "\<exists>k. located_field ps af = JStr k \<and> map_of fin k = Some (attribute_value as (fst af))"
      using fin(4) assms(4) a by blast
  qed
  have "syncAttributesToFields_each True (attributeFields cfg) (JObj fin) = Inr (JObj fin)"
    using reverse_pass[OF fin(2,3) located assms(5)] .
  then have r: "syncFieldsToAttributes cfg ?this1 = Inr ?this1"
    using attr1
    by (simp add: syncFieldsToAttributes_def syncAttributesToFields_def getSettings_def
        syncAttributesToFields_settings_def)
  show ?thesis using f r attr1 by auto
qed

theorem reconcile_fixed_point_witness:
  "settings demo_with_fields =
     JObj [(lit ''type'', JStr (lit ''media'')),
           (lit ''fid'', JNum 42),
           (lit ''attributes'', JObj [(lit ''alt'', JStr (lit ''x'')), (lit ''width'', JNum 100)]),
           (lit ''field_file_image_alt_text[und][0][value]'', JStr (lit ''old'')),
           (lit ''field_file_image_title_text[und][0][value]'', JStr (lit ''t''))]
   \<and> map (located_field (own_props (settings demo_with_fields))) (attributeFields demo_env)
       = [JStr (lit ''field_file_image_alt_text[und][0][value]''),
          JStr (lit ''field_file_image_title_text[und][0][value]'')]
   \<and> list_all (\<lambda>af. truthy_or_absent [(lit ''alt'', JStr (lit ''x'')), (lit ''width'', JNum 100)] (fst af))
         (attributeFields demo_env)
   \<and> syncAttributesToFields demo_env False demo_with_fields
       = Inr (demo_with_fields\<lparr>settings :=
               JObj [(lit ''type'', JStr (lit ''media'')),
                     (lit ''fid'', JNum 42),
                     (lit ''attributes'', JObj [(lit ''alt'', JStr (lit ''x'')), (lit ''width'', JNum 100)]),
                     (lit ''field_file_image_alt_text[und][0][value]'', JStr (lit ''x'')),
                     (lit ''field_file_image_title_text[und][0][value]'', JStr [])]\<rparr>)
   \<and> bindE (syncAttributesToFields demo_env False demo_with_fields) (syncFieldsToAttributes demo_env)
       = syncAttributesToFields demo_env False demo_with_fields
   \<and> bindE (syncAttributesToFields demo_env False demo_with_fields)
         (\<lambda>this1. Inr (js_get (settings this1) (lit ''attributes'')))
       = Inr (JObj [(lit ''alt'', JStr (lit ''x'')), (lit ''width'', JNum 100)])"
proof -
  let ?ps = "[(lit ''type'', JStr (lit ''media'')),
           (lit ''fid'', JNum 42),
           (lit ''attributes'', JObj [(lit ''alt'', JStr (lit ''x'')), (lit ''width'', JNum 100)]),
           (lit ''field_file_image_alt_text[und][0][value]'', JStr (lit ''old'')),
           (lit ''field_file_image_title_text[und][0][value]'', JStr (lit ''t''))]"
  let ?as = "[(lit ''alt'', JStr (lit ''x'')), (lit ''width'', JNum 100)]"
  have s: "settings demo_with_fields = JObj ?ps" by (simp add: demo_with_fields_def)
  have a: "map_of ?ps (lit ''attributes'') = Some (JObj ?as)" by (simp add: lit_def)
  have l: "map (located_field ?ps) (attributeFields demo_env)
       = [JStr (lit ''field_file_image_alt_text[und][0][value]''),
          JStr (lit ''field_file_image_title_text[und][0][value]'')]"
    by (simp add: located_field_def propertyStartsWith_def demo_defs lit_def)
  have n: "\<forall>af \<in> set (attributeFields demo_env). located_field ?ps af \<noteq> JNull"
    using l by (simp add: demo_defs)
  have d: "distinct (map (located_field ?ps) (attributeFields demo_env))"
    unfolding l by (simp add: lit_def)
  have t: "\<forall>af \<in> set (attributeFields demo_env). truthy_or_absent ?as (fst af)"
    by (simp add: truthy_or_absent_def demo_defs lit_def)
  have e: "syncAttributesToFields demo_env False demo_with_fields
       = Inr (demo_with_fields\<lparr>settings :=
               JObj [(lit ''type'', JStr (lit ''media'')),
                     (lit ''fid'', JNum 42),
                     (lit ''attributes'', JObj ?as),
                     (lit ''field_file_image_alt_text[und][0][value]'', JStr (lit ''x'')),
                     (lit ''field_file_image_title_text[und][0][value]'', JStr [])]\<rparr>)"
    by (simp add: sync_defs demo_with_fields_def demo_defs lit_def js_get_def Let_def)
  from reconcile_fixed_point[OF s a n d t] obtain this1 where
    "syncAttributesToFields demo_env False demo_with_fields = Inr this1"
    "syncFieldsToAttributes demo_env this1 = Inr this1"
    "js_get (settings this1) (lit ''attributes'') = JObj ?as"
    by blast
  then show ?thesis using s l t e by (simp add: bindE_def list_all_iff)
qed

section \<open>Token and key\<close>

lemma hashCode_demo: "hashCode demo_token = 1952726427"
  by code_simp

lemma createKey_demo: "createKey demo_token = lit ''token-1952726427''"
  by (simp add: createKey_def hashCode_demo number_to_string_def lit_def digit_unit_def)

lemma getToken_cached: "token this \<noteq> [] \<Longrightarrow> getToken cfg this = Inr (token this, this)"
  by (simp add: getToken_def)

lemma js_get_defined_object: "js_get s p \<noteq> JUndefined \<Longrightarrow> \<exists>ps. s = JObj ps"
  by (cases s) (simp_all add: js_get_def)

lemma verifySettings_object: "verifySettings cfg x = Inr s \<Longrightarrow> \<exists>ps. s = JObj ps"
proof -
  assume "verifySettings cfg x = Inr s"
  then have "js_get s (lit ''type'') = JStr (lit ''media'')"
    by (simp add: verifySettings_def split: if_splits sum.splits)
  then show ?thesis using js_get_defined_object[of s "lit ''type''"] by simp
qed

lemma getSettings_fields:
  assumes "getSettings cfg this = Inr (s, this1)"
  shows "this1 = this\<lparr>settings := s\<rparr> \<and> truthy s"
proof (cases "truthy (settings this)")
  case True
  then show ?thesis using assms by (auto simp: getSettings_def)
next
  case False
  then obtain parsed where "verifySettings cfg parsed = Inr s" "this1 = this\<lparr>settings := s\<rparr>"
    using assms by (auto simp: getSettings_def split: if_splits sum.splits)
  then show ?thesis using verifySettings_object by fastforce
qed

lemma getToken_uncached:
  assumes "token this = []" and "getToken cfg this = Inr (t, this1)"
  shows "\<exists>s s1 pristine. getSettings cfg this = Inr (s, this\<lparr>settings := s\<rparr>)
           \<and> prepareSettingsForToken cfg s1 = Inr pristine
           \<and> t = lit ''[['' @ JSON_stringify cfg pristine @ lit '']]''
           \<and> this1 = this\<lparr>settings := s1, token := t\<rparr>"
proof -
  obtain s this0 where g: "getSettings cfg this = Inr (s, this0)"
    using assms by (cases "getSettings cfg this") (auto simp: getToken_def)
  then have this0: "this0 = this\<lparr>settings := s\<rparr>" using getSettings_fields by blast
  let ?m = "if typeof (js_get s (lit ''link_text'')) = ''string''
            then case overrideLinkTitle cfg s of
                   JStr t \<Rightarrow> js_set s (lit ''link_text'') (JStr (escape_tags t))
                 | _ \<Rightarrow> Inl TypeError
            else Inr s"
  obtain s1 where m: "?m = Inr s1"
    using assms g by (cases ?m) (simp_all add: getToken_def)
  obtain pristine where p: "prepareSettingsForToken cfg s1 = Inr pristine"
    using assms g m by (cases "prepareSettingsForToken cfg s1") (simp_all add: getToken_def)
  have "t = lit ''[['' @ JSON_stringify cfg pristine @ lit '']]''"
       "this1 = this0\<lparr>settings := s1, token := t\<rparr>"
    using assms g m p by (auto simp: getToken_def Let_def)
  then show ?thesis using g this0 p by auto
qed

lemma getToken_fields:
  assumes "getToken cfg this = Inr (t, this1)"
  shows "token this1 = t \<and> t \<noteq> [] \<and> key this1 = key this
       \<and> placeholderBase this1 = placeholderBase this \<and> placeholder this1 = placeholder this
       \<and> (token this \<noteq> [] \<longrightarrow> this1 = this)"
proof (cases "token this = []")
  case False
  then show ?thesis using assms by (auto simp: getToken_def)
next
  case True
  from getToken_uncached[OF True assms] show ?thesis using True by (auto simp: lit_def)
qed

lemma getKey_of_token:
  assumes "key_consistent this" and "getToken cfg this = Inr (t, this')"
  shows "getKey cfg this = Inr (createKey t, this'\<lparr>key := createKey t\<rparr>)"
proof (cases "key this = []")
  case True
  then show ?thesis using assms(2) by (simp add: getKey_def)
next
  case False
  then have c: "token this \<noteq> []" "key this = createKey (token this)"
    using assms(1) by (auto simp: key_consistent_def)
  then have "t = token this" "this' = this" using assms(2) by (auto simp: getToken_cached)
  then show ?thesis using False c by (simp add: getKey_def)
qed

lemma getKey_consistent:
  assumes "key_consistent this" and "getKey cfg this = Inr (k, this1)"
  shows "key_consistent this1 \<and> key this1 = k \<and> k \<noteq> []"
proof (cases "key this = []")
  case True
  then obtain t this' where g: "getToken cfg this = Inr (t, this')"
    and r: "k = createKey t" "this1 = this'\<lparr>key := createKey t\<rparr>"
    using assms(2) by (auto simp: getKey_def split: sum.splits)
  have "token this' = t" "t \<noteq> []" using getToken_fields[OF g] by simp_all
  then show ?thesis using r by (simp add: key_consistent_def createKey_def lit_def)
next
  case False
  then show ?thesis using assms by (auto simp: getKey_def)
qed

lemma getKey_error:
  assumes "key_consistent this" and "getToken cfg this = Inl e"
  shows "getKey cfg this = Inl e"
proof -
  have "token this = []" using assms(2) by (simp add: getToken_def split: if_splits)
  then have "key this = []" using assms(1) by (auto simp: key_consistent_def)
  then show ?thesis using assms(2) by (simp add: getKey_def)
qed

lemma getSettings_demo:
  "getSettings demo_env demo_instance = Inr (demo_settings, demo_instance\<lparr>settings := demo_settings\<rparr>)"
  by (simp add: getSettings_def demo_defs lit_def verifySettings_def js_get_def copyAsNew_def)

lemma getKey_demo:
  "getKey cfg demo_instance
     = Inr (lit ''token-1952726427'', demo_instance\<lparr>key := lit ''token-1952726427''\<rparr>)"
proof -
  have "token demo_instance \<noteq> []" by (simp add: demo_instance_def demo_token_def lit_def)
  then have "getToken cfg demo_instance = Inr (demo_token, demo_instance)"
    using getToken_cached by (simp add: demo_instance_def)
  then show ?thesis by (simp add: getKey_def createKey_demo demo_instance_def)
qed

text \<open>
  Claim C2. On every instance that satisfies the invariant \<open>key_consistent\<close> (every
  instance reached from the constructor through the methods, see
  \<open>key_consistent_preserved\<close> below), \<open>getKey()\<close> returns the string
  \<open>"token-" + hashCode(getToken())\<close>, and throws what \<open>getToken()\<close> throws. It is
  deterministic in the resolved token text: a second call on the same instance returns the
  same key and leaves the instance as it is, and two instances whose resolved tokens are
  equal as strings return the same key.
\<close>

theorem getKey_spec:
  assumes "key_consistent this"
  shows "map_sum id fst (getKey cfg this)
           = map_sum id (\<lambda>r. lit ''token-'' @ number_to_string (hashCode (fst r))) (getToken cfg this)
       \<and> (\<forall>k this1. getKey cfg this = Inr (k, this1) \<longrightarrow>
             key_consistent this1 \<and> getKey cfg this1 = Inr (k, this1))
       \<and> (\<forall>cfg' other k k' t this1 this' other1 other'.
             key_consistent other \<and> getKey cfg this = Inr (k, this1) \<and> getKey cfg' other = Inr (k', other1)
             \<and> getToken cfg this = Inr (t, this') \<and> getToken cfg' other = Inr (t, other') \<longrightarrow> k = k')"
proof -
  have a: "map_sum id fst (getKey cfg this)
           = map_sum id (\<lambda>r. lit ''token-'' @ number_to_string (hashCode (fst r))) (getToken cfg this)"
  proof (cases "getToken cfg this")
    case (Inl e)
    then show ?thesis using getKey_error[OF assms] by simp
  next
    case (Inr r)
    then show ?thesis using getKey_of_token[OF assms, of cfg "fst r" "snd r"]
      by (simp add: createKey_def)
  qed
  have b: "key_consistent this1 \<and> getKey cfg this1 = Inr (k, this1)"
    if "getKey cfg this = Inr (k, this1)" for k this1
    using getKey_consistent[OF assms that] by (simp add: getKey_def)
  have c: "k = k'"
    if "key_consistent other" "getKey cfg this = Inr (k, this1)" "getKey cfg' other = Inr (k', other1)"
       "getToken cfg this = Inr (t, this')" "getToken cfg' other = Inr (t, other')"
    for cfg' other k k' t this1 this' other1 other'
    using getKey_of_token[OF assms that(4)] getKey_of_token[OF that(1,5)] that(2,3) by simp
  show ?thesis using a b c by blast
qed

theorem getKey_spec_witness:
  "key_consistent demo_instance
   \<and> getToken demo_env demo_instance = Inr (demo_token, demo_instance)
   \<and> hashCode demo_token = 1952726427
   \<and> getKey demo_env demo_instance
       = Inr (lit ''token-1952726427'', demo_instance\<lparr>key := lit ''token-1952726427''\<rparr>)
   \<and> getKey demo_env (demo_instance\<lparr>key := lit ''token-1952726427''\<rparr>)
       = Inr (lit ''token-1952726427'', demo_instance\<lparr>key := lit ''token-1952726427''\<rparr>)"
proof -
  have kc: "key_consistent demo_instance" by (simp add: key_consistent_def demo_instance_def)
  have ne: "token demo_instance \<noteq> []" by (simp add: demo_instance_def demo_token_def lit_def)
  have t: "getToken demo_env demo_instance = Inr (demo_token, demo_instance)"
    using getToken_cached[OF ne] by (simp add: demo_instance_def)
  have k: "getKey demo_env demo_instance
       = Inr (lit ''token-1952726427'', demo_instance\<lparr>key := lit ''token-1952726427''\<rparr>)"
    using t by (simp add: getKey_def createKey_demo demo_instance_def)
  from getKey_spec[OF kc, of demo_env] k
  have "getKey demo_env (demo_instance\<lparr>key := lit ''token-1952726427''\<rparr>)
       = Inr (lit ''token-1952726427'', demo_instance\<lparr>key := lit ''token-1952726427''\<rparr>)"
    by blast
  then show ?thesis using kc t k hashCode_demo by simp
qed

section \<open>Synchronisation from the placeholder\<close>

lemma js_set_Inr: "js_set s p v = Inr s' \<Longrightarrow> \<exists>ps. s = JObj ps \<and> s' = JObj (AList.update p v ps)"
  by (cases s) auto

lemma sync_entry_object: "syncAttributesToFields_entry r af s = Inr s' \<Longrightarrow> \<exists>ps'. s' = JObj ps'"
  by (auto simp: syncAttributesToFields_entry_def Let_def split: if_splits sum.splits dest: js_set_Inr)

lemma sync_each_object:
  "syncAttributesToFields_each r T s = Inr s' \<Longrightarrow> \<exists>ps. s = JObj ps \<Longrightarrow> \<exists>ps'. s' = JObj ps'"
proof (induction T arbitrary: s)
  case Nil
  then show ?case by simp
next
  case (Cons af T)
  then obtain s1 where s1: "syncAttributesToFields_entry r af s = Inr s1"
    "syncAttributesToFields_each r T s1 = Inr s'"
    by (cases "syncAttributesToFields_entry r af s") auto
  then show ?case using Cons.IH[OF s1(2)] sync_entry_object[OF s1(1)] by blast
qed

lemma sync_settings_object:
  assumes "syncAttributesToFields_settings cfg r s = Inr s'"
  shows "\<exists>ps'. s' = JObj ps'"
proof -
  let ?init = "if \<not> truthy (js_get s (lit ''attributes''))
               then js_set s (lit ''attributes'') (JObj []) else Inr s"
  obtain s1 where s1: "?init = Inr s1" "syncAttributesToFields_each r (attributeFields cfg) s1 = Inr s'"
    using assms by (cases ?init) (simp_all add: syncAttributesToFields_settings_def)
  have "\<exists>ps. s1 = JObj ps"
  proof (cases "truthy (js_get s (lit ''attributes''))")
    case True
    then have "js_get s (lit ''attributes'') \<noteq> JUndefined" by auto
    then show ?thesis using s1(1) True js_get_defined_object by auto
  next
    case False
    then show ?thesis using s1(1) js_set_Inr by fastforce
  qed
  then show ?thesis using sync_each_object[OF s1(2)] by blast
qed

lemma syncAttributesToFields_fields:
  assumes "syncAttributesToFields cfg r this = Inr this1"
  shows "\<exists>ps. this1 = this\<lparr>settings := JObj ps\<rparr>"
proof -
  obtain s this0 where g: "getSettings cfg this = Inr (s, this0)"
    using assms by (cases "getSettings cfg this") (auto simp: syncAttributesToFields_def)
  then have t0: "this0 = this\<lparr>settings := s\<rparr>" using getSettings_fields by blast
  obtain s' where s': "syncAttributesToFields_settings cfg r s = Inr s'" "this1 = this0\<lparr>settings := s'\<rparr>"
    using assms g by (cases "syncAttributesToFields_settings cfg r s") (auto simp: syncAttributesToFields_def)
  show ?thesis using sync_settings_object[OF s'(1)] s'(2) t0 by auto
qed

lemma forward_each_total:
  "\<exists>ps'. syncAttributesToFields_each False T (JObj ps) = Inr (JObj ps')"
proof (induction T arbitrary: ps)
  case Nil
  then show ?case by simp
next
  case (Cons af T)
  obtain ps1 where "syncAttributesToFields_entry False af (JObj ps) = Inr (JObj ps1)"
    by (simp add: syncAttributesToFields_entry_def Let_def)
  then show ?case using Cons.IH[of ps1] by simp
qed

lemma syncPlaceholderToSettings_attached:
  assumes "placeholder this = Some p"
  shows "syncPlaceholderToSettings cfg this =
     bindE (getSettings cfg this) (\<lambda>(s, this2).
     bindE (js_set s (lit ''attributes'') (JObj (read_allowed_attributes p (wysiwygAllowedAttributes cfg) []))) (\<lambda>s1.
     bindE (syncAttributesToFields cfg False (this2\<lparr>settings := s1\<rparr>)) (\<lambda>this3.
     bindE (js_set (settings this3) (lit ''link_text'') (if doLinkText cfg then link_html cfg p else JBool False)) (\<lambda>s2.
     bindE (outerHTML cfg p) (\<lambda>html.
       Inr ((setPlaceholderBase html (this3\<lparr>settings := s2\<rparr>))\<lparr>token := [], key := []\<rparr>))))))"
  using assms
  by (simp add: syncPlaceholderToSettings_def getPlaceholder_def bindE_def split: sum.splits prod.splits)

lemma syncPlaceholderToSettings_reset:
  assumes "syncPlaceholderToSettings cfg this = Inr this1"
  shows "token this1 = [] \<and> key this1 = [] \<and> (\<exists>ps. settings this1 = JObj ps)"
proof -
  obtain p this0 where a: "getPlaceholder cfg this = Inr (p, this0)"
    using assms by (cases "getPlaceholder cfg this") (auto simp: syncPlaceholderToSettings_def)
  obtain s this2 where b: "getSettings cfg this0 = Inr (s, this2)"
    using assms a by (cases "getSettings cfg this0") (auto simp: syncPlaceholderToSettings_def)
  let ?set1 = "js_set s (lit ''attributes'') (JObj (read_allowed_attributes p (wysiwygAllowedAttributes cfg) []))"
  obtain s1 where c: "?set1 = Inr s1"
    using assms a b by (cases ?set1) (auto simp: syncPlaceholderToSettings_def)
  let ?sync = "syncAttributesToFields cfg False (this2\<lparr>settings := s1\<rparr>)"
  obtain this3 where d: "?sync = Inr this3"
    using assms a b c by (cases ?sync) (auto simp: syncPlaceholderToSettings_def)
  let ?set2 = "js_set (settings this3) (lit ''link_text'') (if doLinkText cfg then link_html cfg p else JBool False)"
  obtain s2 where e: "?set2 = Inr s2"
    using assms a b c d by (cases ?set2) (auto simp: syncPlaceholderToSettings_def)
  obtain html where f: "outerHTML cfg p = Inr html"
    using assms a b c d e by (cases "outerHTML cfg p") (auto simp: syncPlaceholderToSettings_def)
  have "this1 = (setPlaceholderBase html (this3\<lparr>settings := s2\<rparr>))\<lparr>token := [], key := []\<rparr>"
    using assms a b c d e f by (simp add: syncPlaceholderToSettings_def)
  moreover have "\<exists>ps. s2 = JObj ps" using js_set_Inr[OF e] by blast
  ultimately show ?thesis by (auto simp: setPlaceholderBase_def)
qed

lemma setPlaceholder_total:
  assumes "p \<noteq> []" and "settings this = JObj ps"
  shows "\<exists>this1. setPlaceholder cfg p this = Inr this1"
proof -
  obtain e rest where p: "p = e # rest" using assms(1) by (cases p) auto
  then have o: "outerHTML cfg p = Inr (outerHTML_of cfg e)" by (simp add: outerHTML_def)
  let ?inst = "this\<lparr>placeholder := Some p, placeholderBase := outerHTML_of cfg e\<rparr>"
  let ?s1 = "JObj (AList.update (lit ''attributes'')
                (JObj (read_allowed_attributes p (wysiwygAllowedAttributes cfg) [])) ps)"
  have g: "getSettings cfg ?inst = Inr (JObj ps, ?inst)" using assms(2) by (simp add: getSettings_def)
  obtain ps' where each: "syncAttributesToFields_each False (attributeFields cfg) ?s1 = Inr (JObj ps')"
    using forward_each_total by blast
  have sync: "syncAttributesToFields cfg False (?inst\<lparr>settings := ?s1\<rparr>) = Inr (?inst\<lparr>settings := JObj ps'\<rparr>)"
    using each by (simp add: syncAttributesToFields_def getSettings_def syncAttributesToFields_settings_def)
  have "syncPlaceholderToSettings cfg ?inst =
      Inr ((setPlaceholderBase (outerHTML_of cfg e)
             (?inst\<lparr>settings := JObj (AList.update (lit ''link_text'')
                  (if doLinkText cfg then link_html cfg p else JBool False) ps')\<rparr>))\<lparr>token := [], key := []\<rparr>)"
    using g sync o
    by (simp add: syncPlaceholderToSettings_attached[of ?inst p] bindE_def)
  then show ?thesis using o by (simp add: setPlaceholder_def)
qed


lemma getToken_from_settings:
  assumes "token a = []" "token b = []" "settings a = settings b"
  shows "map_sum id fst (getToken cfg a) = map_sum id fst (getToken cfg b)"
proof (cases "truthy (settings a)")
  case True
  then have g: "getSettings cfg a = Inr (settings a, a)" "getSettings cfg b = Inr (settings a, b)"
    using assms(3) by (simp_all add: getSettings_def)
  show ?thesis using assms(1,2) g
    by (simp add: getToken_def Let_def split: sum.splits)
next
  case False
  then have "getSettings cfg a = Inl MissingBasicInfo" "getSettings cfg b = Inl MissingBasicInfo"
    using assms by (simp_all add: getSettings_def)
  then show ?thesis using assms(1,2) by (simp add: getToken_def)
qed

lemma setPlaceholder_reset:
  assumes "setPlaceholder cfg p this = Inr this1"
  shows "token this1 = [] \<and> key this1 = [] \<and> (\<exists>ps. settings this1 = JObj ps)"
proof -
  obtain html where "outerHTML cfg p = Inr html"
    "syncPlaceholderToSettings cfg (this\<lparr>placeholder := Some p, placeholderBase := html\<rparr>) = Inr this1"
    using assms by (cases "outerHTML cfg p") (auto simp: setPlaceholder_def)
  then show ?thesis using syncPlaceholderToSettings_reset by blast
qed

text \<open>The methods keep the invariant between key and token.\<close>

lemma key_consistent_preserved:
  "WysiwygInstance cfg info base = Inr (this, cfg') \<Longrightarrow> key_consistent this"
  "key_consistent this \<Longrightarrow> getSettings cfg this = Inr (s, this1) \<Longrightarrow> key_consistent this1"
  "key_consistent this \<Longrightarrow> getToken cfg this = Inr (t, this1) \<Longrightarrow> key_consistent this1"
  "key_consistent this \<Longrightarrow> getKey cfg this = Inr (k, this1) \<Longrightarrow> key_consistent this1"
  "key_consistent this \<Longrightarrow> key_consistent (setPlaceholderBase html this)"
  "key_consistent this \<Longrightarrow> syncAttributesToFields cfg r this = Inr this1 \<Longrightarrow> key_consistent this1"
  "key_consistent this \<Longrightarrow> getPlaceholderBase cfg this = Inr (html, this1) \<Longrightarrow> key_consistent this1"
  "syncPlaceholderToSettings cfg this = Inr this1 \<Longrightarrow> key_consistent this1"
  "setPlaceholder cfg p this = Inr this1 \<Longrightarrow> key_consistent this1"
proof -
  show "key_consistent this" if "WysiwygInstance cfg info base = Inr (this, cfg')"
    using that
    by (auto simp: WysiwygInstance_def key_consistent_def Let_def split: if_splits sum.splits)
  show "key_consistent this1" if "key_consistent this" "getSettings cfg this = Inr (s, this1)"
    using that getSettings_fields[OF that(2)] by (auto simp: key_consistent_def)
  show "key_consistent this1" if "key_consistent this" "getToken cfg this = Inr (t, this1)"
    using that getToken_fields[OF that(2)] by (auto simp: key_consistent_def)
  show "key_consistent this1" if "key_consistent this" "getKey cfg this = Inr (k, this1)"
    using getKey_consistent[OF that] by simp
  show "key_consistent (setPlaceholderBase html this)" if "key_consistent this"
    using that by (simp add: key_consistent_def setPlaceholderBase_def)
  show "key_consistent this1" if "key_consistent this" "syncAttributesToFields cfg r this = Inr this1"
    using that syncAttributesToFields_fields[OF that(2)] by (auto simp: key_consistent_def)
  show "key_consistent this1"
    if h1: "key_consistent this" and h2: "getPlaceholderBase cfg this = Inr (html, this1)"
  proof (cases "placeholderBase this = []")
    case False
    then show ?thesis using h1 h2 by (simp add: getPlaceholderBase_def)
  next
    case True
    then obtain k this0 where k: "getKey cfg this = Inr (k, this0)"
      using h2 by (cases "getKey cfg this") (auto simp: getPlaceholderBase_def)
    then have "\<exists>b. this1 = this0\<lparr>placeholderBase := b\<rparr>"
      using h2 True by (auto simp: getPlaceholderBase_def Let_def split: if_splits)
    then show ?thesis using getKey_consistent[OF h1 k] by (auto simp: key_consistent_def)
  qed
  show "key_consistent this1" if "syncPlaceholderToSettings cfg this = Inr this1"
    using syncPlaceholderToSettings_reset[OF that] by (simp add: key_consistent_def)
  show "key_consistent this1" if "setPlaceholder cfg p this = Inr this1"
    using setPlaceholder_reset[OF that] by (simp add: key_consistent_def)
qed

text \<open>
  Claim C6. When \<open>setPlaceholder(element)\<close> returns, the fields \<open>token\<close> and \<open>key\<close> of
  the instance are both the empty string. They stay empty until they are recomputed:
  \<open>getSettings\<close> returns the new settings and leaves the instance as it is; \<open>getToken\<close>
  computes the token from the new settings alone (any instance with an empty token and
  the same settings gets the same token), and \<open>getKey\<close> returns \<open>createKey\<close> of that
  token. The call does return whenever the jQuery object holds an element and the settings
  of the instance are materialised.
\<close>

theorem setPlaceholder_resets_token_and_key:
  "(setPlaceholder cfg p this = Inr this1 \<longrightarrow>
      token this1 = [] \<and> key this1 = []
      \<and> getSettings cfg this1 = Inr (settings this1, this1)
      \<and> (\<forall>other. token other = [] \<and> settings other = settings this1 \<longrightarrow>
            map_sum id fst (getToken cfg other) = map_sum id fst (getToken cfg this1))
      \<and> map_sum id fst (getKey cfg this1) = map_sum id (\<lambda>r. createKey (fst r)) (getToken cfg this1))
   \<and> (p \<noteq> [] \<and> settings this = JObj ps \<longrightarrow> (\<exists>this2. setPlaceholder cfg p this = Inr this2))"
proof -
  have a: "token this1 = [] \<and> key this1 = []
      \<and> getSettings cfg this1 = Inr (settings this1, this1)
      \<and> (\<forall>other. token other = [] \<and> settings other = settings this1 \<longrightarrow>
            map_sum id fst (getToken cfg other) = map_sum id fst (getToken cfg this1))
      \<and> map_sum id fst (getKey cfg this1) = map_sum id (\<lambda>r. createKey (fst r)) (getToken cfg this1)"
    if h: "setPlaceholder cfg p this = Inr this1"
  proof -
    from setPlaceholder_reset[OF h] obtain qs where r: "token this1 = []" "key this1 = []"
      "settings this1 = JObj qs" by blast
    have g: "getSettings cfg this1 = Inr (settings this1, this1)" using r(3) by (simp add: getSettings_def)
    have t: "\<forall>other. token other = [] \<and> settings other = settings this1 \<longrightarrow>
            map_sum id fst (getToken cfg other) = map_sum id fst (getToken cfg this1)"
      using getToken_from_settings r(1) by blast
    have k: "map_sum id fst (getKey cfg this1) = map_sum id (\<lambda>r. createKey (fst r)) (getToken cfg this1)"
      using r(2) by (simp add: getKey_def split: sum.splits)
    show ?thesis using r(1,2) g t k by blast
  qed
  show ?thesis using a setPlaceholder_total by blast
qed

theorem setPlaceholder_resets_witness:
  "token demo_keyed = demo_token \<and> key demo_keyed = lit ''token-1952726427''
   \<and> setPlaceholder demo_env [demo_img (lit ''media-element file-full'')] demo_keyed
       = Inr \<lparr>token = [],
              settings =
                JObj [(lit ''type'', JStr (lit ''media'')),
                      (lit ''fid'', JNum 42),
                      (lit ''view_mode'', JStr (lit ''full'')),
                      (lit ''attributes'',
                         JObj [(lit ''alt'', JStr (lit ''hello'')),
                               (lit ''class'', JStr (lit ''media-element file-full''))]),
                      (lit ''link_text'', JBool False),
                      (lit ''null'', JStr [])],
              key = [],
              placeholderBase = lit ''<img>'',
              placeholder = Some [demo_img (lit ''media-element file-full'')]\<rparr>"
proof -
  let ?p = "[demo_img (lit ''media-element file-full'')]"
  let ?res = "\<lparr>token = [],
              settings =
                JObj [(lit ''type'', JStr (lit ''media'')),
                      (lit ''fid'', JNum 42),
                      (lit ''view_mode'', JStr (lit ''full'')),
                      (lit ''attributes'',
                         JObj [(lit ''alt'', JStr (lit ''hello'')),
                               (lit ''class'', JStr (lit ''media-element file-full''))]),
                      (lit ''link_text'', JBool False),
                      (lit ''null'', JStr [])],
              key = [],
              placeholderBase = lit ''<img>'',
              placeholder = Some ?p\<rparr>"
  have e: "setPlaceholder demo_env ?p demo_keyed = Inr ?res"
    by (simp add: setPlaceholder_def outerHTML_def demo_keyed_def
        syncPlaceholderToSettings_attached bindE_def getSettings_def jq_attr_def setPlaceholderBase_def
        sync_defs demo_defs lit_def js_get_def Let_def)
  have "token ?res = [] \<and> key ?res = []"
    using setPlaceholder_resets_token_and_key[of demo_env ?p demo_keyed ?res] e by blast
  then show ?thesis using e by (simp add: demo_keyed_def demo_instance_def)
qed

section \<open>The placeholder base\<close>

lemma getPlaceholderBase_stored:
  "placeholderBase this \<noteq> [] \<Longrightarrow> getPlaceholderBase cfg this = Inr (placeholderBase this, this)"
  by (simp add: getPlaceholderBase_def)

text \<open>
  As stated, the claim fails on a cached entry that is the empty string: the entry exists,
  and \<open>getPlaceholderBase\<close> throws the \<open>MissingPlaceholderError\<close>, since it tests the
  entry by truthiness.
\<close>

theorem getPlaceholderBase_counterexample:
  "map_of (tagMap (demo_tagged [])) (lit ''token-1952726427'') = Some []
   \<and> placeholderBase demo_instance = []
   \<and> getKey (demo_tagged []) demo_instance
       = Inr (lit ''token-1952726427'', demo_instance\<lparr>key := lit ''token-1952726427''\<rparr>)
   \<and> getPlaceholderBase (demo_tagged []) demo_instance = Inl MissingPlaceholder"
  using getKey_demo[of "demo_tagged []"]
  by (simp add: getPlaceholderBase_def demo_tagged_def demo_instance_def)

text \<open>
  Claim C8, amended. Let the instance have no stored \<open>placeholderBase\<close> and let
  \<open>getKey()\<close> return \<open>k\<close>. When the global token-to-HTML map has no entry for \<open>k\<close>, or
  an empty one, \<open>getPlaceholderBase()\<close> throws the \<open>MissingPlaceholderError\<close>. When it has
  a non-empty entry, that entry is stored and returned: wrapped in \<open><span>...</span>\<close>
  when the text content of the parsed fragment is as long as the fragment (as it is for
  bare text), and as it is otherwise.
\<close>

theorem getPlaceholderBase_spec:
  assumes "placeholderBase this = []" and "getKey cfg this = Inr (k, this1)"
  shows "(map_of (tagMap cfg) k = None \<longrightarrow> getPlaceholderBase cfg this = Inl MissingPlaceholder)
       \<and> (map_of (tagMap cfg) k = Some [] \<longrightarrow> getPlaceholderBase cfg this = Inl MissingPlaceholder)
       \<and> (\<forall>html. map_of (tagMap cfg) k = Some html \<and> html \<noteq> [] \<longrightarrow>
            (length (html_text cfg html) = length html \<longrightarrow>
               getPlaceholderBase cfg this
                 = Inr (lit ''<span>'' @ html @ lit ''</span>'',
                        this1\<lparr>placeholderBase := lit ''<span>'' @ html @ lit ''</span>''\<rparr>))
            \<and> (length (html_text cfg html) \<noteq> length html \<longrightarrow>
               getPlaceholderBase cfg this = Inr (html, this1\<lparr>placeholderBase := html\<rparr>)))"
  using assms by (simp add: getPlaceholderBase_def Let_def)

theorem getPlaceholderBase_spec_witness:
  "placeholderBase demo_instance = []
   \<and> getKey demo_env demo_instance
       = Inr (lit ''token-1952726427'', demo_instance\<lparr>key := lit ''token-1952726427''\<rparr>)
   \<and> map_of (tagMap demo_env) (lit ''token-1952726427'') = None
   \<and> getPlaceholderBase demo_env demo_instance = Inl MissingPlaceholder
   \<and> map_of (tagMap (demo_tagged (lit ''<img src=x>''))) (lit ''token-1952726427'') = Some (lit ''<img src=x>'')
   \<and> html_text (demo_tagged (lit ''<img src=x>'')) (lit ''<img src=x>'') = []
   \<and> getPlaceholderBase (demo_tagged (lit ''<img src=x>'')) demo_instance
       = Inr (lit ''<img src=x>'',
              demo_instance\<lparr>key := lit ''token-1952726427'', placeholderBase := lit ''<img src=x>''\<rparr>)
   \<and> html_text (demo_tagged (lit ''Some file'')) (lit ''Some file'') = lit ''Some file''
   \<and> getPlaceholderBase (demo_tagged (lit ''Some file'')) demo_instance
       = Inr (lit ''<span>Some file</span>'',
              demo_instance\<lparr>key := lit ''token-1952726427'',
                              placeholderBase := lit ''<span>Some file</span>''\<rparr>)"
proof -
  have b: "placeholderBase demo_instance = []" by (simp add: demo_instance_def)
  have k0: "getKey demo_env demo_instance
       = Inr (lit ''token-1952726427'', demo_instance\<lparr>key := lit ''token-1952726427''\<rparr>)"
    by (rule getKey_demo)
  have n: "map_of (tagMap demo_env) (lit ''token-1952726427'') = None" by (simp add: demo_env_def)
  have r0: "getPlaceholderBase demo_env demo_instance = Inl MissingPlaceholder"
    using getPlaceholderBase_spec[OF b k0] n by blast
  have r1: "getPlaceholderBase (demo_tagged (lit ''<img src=x>'')) demo_instance
       = Inr (lit ''<img src=x>'',
              demo_instance\<lparr>key := lit ''token-1952726427'', placeholderBase := lit ''<img src=x>''\<rparr>)"
    using getPlaceholderBase_spec[OF b getKey_demo[of "demo_tagged (lit ''<img src=x>'')"]]
    by (simp add: demo_tagged_def demo_env_def lit_def)
  have r2: "getPlaceholderBase (demo_tagged (lit ''Some file'')) demo_instance
       = Inr (lit ''<span>Some file</span>'',
              demo_instance\<lparr>key := lit ''token-1952726427'',
                              placeholderBase := lit ''<span>Some file</span>''\<rparr>)"
    using getPlaceholderBase_spec[OF b getKey_demo[of "demo_tagged (lit ''Some file'')"]]
    by (simp add: demo_tagged_def demo_env_def lit_def)
  show ?thesis using b k0 n r0 r1 r2 by (simp add: demo_tagged_def demo_env_def lit_def)
qed

section \<open>Alignment\<close>

subsection \<open>Class tokens\<close>

lemma class_tokens_single: "class_token t \<Longrightarrow> class_tokens t = [t]"
proof (induction t)
  case Nil
  then show ?case by (simp add: class_token_def)
next
  case (Cons c cs)
  show ?case
  proof (cases cs)
    case Nil
    then show ?thesis using Cons.prems by (simp add: class_token_def)
  next
    case (Cons d ds)
    then have "class_token cs" using Cons.prems by (simp add: class_token_def)
    then have "class_tokens cs = [cs]" using Cons.IH by simp
    then show ?thesis using Cons.prems Cons by (simp add: class_token_def)
  qed
qed

lemma class_tokens_append:
  "class_token t \<Longrightarrow> is_class_space sp \<Longrightarrow> class_tokens (t @ sp # rest) = t # class_tokens rest"
proof (induction t)
  case Nil
  then show ?case by (simp add: class_token_def)
next
  case (Cons c cs)
  show ?case
  proof (cases cs)
    case Nil
    then show ?thesis using Cons.prems by (simp add: class_token_def)
  next
    case (Cons d ds)
    then have "class_token cs" using Cons.prems by (simp add: class_token_def)
    then have "class_tokens (cs @ sp # rest) = cs # class_tokens rest" using Cons.IH Cons.prems(2) by simp
    then show ?thesis using Cons.prems Cons by (simp add: class_token_def)
  qed
qed

lemma class_tokens_are_tokens: "list_all class_token (class_tokens s)"
proof (induction s rule: class_tokens.induct)
  case 1
  then show ?case by simp
next
  case (2 c cs)
  then show ?case
    by (auto simp: class_token_def split: list.splits)
qed

lemma space_is_class_space: "is_class_space 0x20"
  by (simp add: is_class_space_def)

lemma class_tokens_join:
  "list_all class_token ts \<Longrightarrow> class_tokens (js_join (lit '' '') ts) = ts"
proof (induction "lit '' ''" ts rule: js_join.induct)
  case 1
  then show ?case by simp
next
  case (2 x)
  then show ?case by (simp add: class_tokens_single)
next
  case (3 x y ys)
  then have "class_tokens (js_join (lit '' '') (y # ys)) = y # ys" by simp
  then show ?case using 3(2) class_tokens_append[of x "0x20" "js_join (lit '' '') (y # ys)"]
    by (simp add: lit_def space_is_class_space)
qed

lemma align_class_token: "no_class_space v \<Longrightarrow> class_token (lit ''media-wysiwyg-align-'' @ v)"
  by (simp add: class_token_def no_class_space_def lit_def is_class_space_def)

lemma class_attr_update [simp]:
  "class_attr (e\<lparr>attrs := AList.update (lit ''class'') v (attrs e)\<rparr>) = v"
  by (simp add: class_attr_def update_conv')

lemma class_attr_delete:
  "name \<noteq> lit ''class'' \<Longrightarrow> class_attr (e\<lparr>attrs := AList.delete name (attrs e)\<rparr>) = class_attr e"
  by (simp add: class_attr_def delete_conv')

lemma class_attr_float [simp]: "class_attr (e\<lparr>inline_float := v\<rparr>) = class_attr e"
  by (simp add: class_attr_def)

lemma tokens_removeClass:
  "class_tokens (class_attr (el_removeClass v e))
     = filter (\<lambda>t. t \<notin> set (class_tokens v)) (class_tokens (class_attr e))"
proof (cases "class_attr e = []")
  case True
  then show ?thesis by (simp add: el_removeClass_def)
next
  case False
  have "list_all class_token (filter (\<lambda>t. t \<notin> set (class_tokens v)) (class_tokens (class_attr e)))"
    using class_tokens_are_tokens[of "class_attr e"] by (simp add: list_all_iff)
  then show ?thesis using False by (simp add: el_removeClass_def class_tokens_join)
qed

lemma tokens_addClass:
  "set (class_tokens (class_attr (el_addClass v e)))
     = set (class_tokens (class_attr e)) \<union> set (class_tokens v)"
proof -
  let ?cur = "class_tokens (class_attr e)"
  let ?new = "filter (\<lambda>t. t \<notin> set ?cur) (remdups (class_tokens v))"
  show ?thesis
  proof (cases "?new = []")
    case True
    then have "set (class_tokens v) \<subseteq> set ?cur"
      by (metis (mono_tags, lifting) filter_empty_conv set_remdups subsetI)
    then show ?thesis using True by (auto simp: el_addClass_def Let_def)
  next
    case False
    have "list_all class_token (?cur @ ?new)"
      using class_tokens_are_tokens[of "class_attr e"] class_tokens_are_tokens[of v]
      by (auto simp: list_all_iff)
    then have "class_tokens (js_join (lit '' '') (?cur @ ?new)) = ?cur @ ?new"
      by (rule class_tokens_join)
    then show ?thesis using False by (auto simp: el_addClass_def Let_def)
  qed
qed

lemma hasClass_removeClass:
  "class_token c \<Longrightarrow> el_hasClass u (el_removeClass c e) = (u \<noteq> c \<and> el_hasClass u e)"
  by (auto simp: el_hasClass_def tokens_removeClass class_tokens_single)

lemma hasClass_addClass:
  "class_token c \<Longrightarrow> el_hasClass u (el_addClass c e) = (u = c \<or> el_hasClass u e)"
  by (auto simp: el_hasClass_def tokens_addClass class_tokens_single)

lemma hasClass_removeAttr:
  "name \<noteq> lit ''class'' \<Longrightarrow>
   el_hasClass u (e\<lparr>attrs := AList.delete name (attrs e)\<rparr>) = el_hasClass u e"
  by (simp add: el_hasClass_def class_attr_delete)

lemma hasClass_float: "el_hasClass u (e\<lparr>inline_float := v\<rparr>) = el_hasClass u e"
  by (simp add: el_hasClass_def)

lemma resetAlignment_map:
  "resetAlignment cur el = map (resetAlignment_element (lit ''media-wysiwyg-align-'' @ ToString cur)) el"
  by (simp add: resetAlignment_def jq_removeAttr_def jq_css_float_set_def jq_removeClass_def
      resetAlignment_element_def Let_def)

lemma resetAlignment_element_class:
  "class_attr (resetAlignment_element cls e) = class_attr (el_removeClass cls e)"
  by (simp add: resetAlignment_element_def Let_def class_attr_def delete_conv' lit_def)

lemma resetAlignment_classes:
  assumes "no_class_space c"
  shows "list_all (\<lambda>e. \<not> el_hasClass (lit ''media-wysiwyg-align-'' @ c) e) (resetAlignment (JStr c) el)"
    and "u \<noteq> lit ''media-wysiwyg-align-'' @ c \<Longrightarrow>
         list_all (el_hasClass u) (resetAlignment (JStr c) el) = list_all (el_hasClass u) el"
proof -
  have one: "el_hasClass u (resetAlignment_element (lit ''media-wysiwyg-align-'' @ c) e)
      = (u \<noteq> lit ''media-wysiwyg-align-'' @ c \<and> el_hasClass u e)" for u e
    using hasClass_removeClass[OF align_class_token[OF assms], of u e]
    by (simp add: el_hasClass_def resetAlignment_element_class)
  show "list_all (\<lambda>e. \<not> el_hasClass (lit ''media-wysiwyg-align-'' @ c) e) (resetAlignment (JStr c) el)"
    by (simp add: resetAlignment_map list_all_iff one)
  show "list_all (el_hasClass u) (resetAlignment (JStr c) el) = list_all (el_hasClass u) el"
    if "u \<noteq> lit ''media-wysiwyg-align-'' @ c"
    using that by (simp add: resetAlignment_map list_all_iff one)
qed

lemma addClass_classes:
  assumes "no_class_space v"
  shows "list_all (el_hasClass (lit ''media-wysiwyg-align-'' @ v)) (jq_addClass (lit ''media-wysiwyg-align-'' @ v) el)"
    and "u \<noteq> lit ''media-wysiwyg-align-'' @ v \<Longrightarrow>
         list_all (\<lambda>e. \<not> el_hasClass u e) (jq_addClass (lit ''media-wysiwyg-align-'' @ v) el)
           = list_all (\<lambda>e. \<not> el_hasClass u e) el"
  using hasClass_addClass[OF align_class_token[OF assms]]
  by (simp_all add: jq_addClass_def list_all_iff)

subsection \<open>What getMediaAlignment returns\<close>

lemma alignment_word_no_space: "alignment_word a \<Longrightarrow> no_class_space a"
  by (auto simp: alignment_word_def no_class_space_def lit_def is_class_space_def)

lemma align_capture_word: "align_capture s = Some a \<Longrightarrow> alignment_word a"
  by (auto simp: align_capture_def alignment_word_def split: if_splits)

lemma spaces_then_align_word: "spaces_then_align s = Some a \<Longrightarrow> alignment_word a"
  by (induction s) (auto split: if_splits option.splits dest: align_capture_word)

lemma any_then_spaces_then_align_word: "any_then_spaces_then_align s = Some a \<Longrightarrow> alignment_word a"
proof (induction s)
  case Nil
  then show ?case by simp
next
  case (Cons c cs)
  then show ?case
    using spaces_then_align_word[of "c # cs" a]
    by (cases "any_then_spaces_then_align cs") (auto split: if_splits simp del: spaces_then_align.simps)
qed

lemma alignRe_match_word: "alignRe_match s = Some a \<Longrightarrow> alignment_word a"
proof (induction s)
  case Nil
  then show ?case by simp
next
  case (Cons c cs)
  then show ?case
    using any_then_spaces_then_align_word[of "c # cs" a] align_capture_word[of "c # cs" a]
    by (cases "any_then_spaces_then_align (c # cs)"; cases "align_capture (c # cs)")
       (auto simp: alignRe_at_def simp del: any_then_spaces_then_align.simps)
qed

lemma getMediaAlignment_values:
  assumes "getMediaAlignment el = Inr cur"
  shows "cur = JNull \<or> (\<exists>a. cur = JStr a \<and> (alignment_word a))"
proof -
  obtain cls where c: "jq_attr el (lit ''class'') = Some cls"
    using assms by (cases "jq_attr el (lit ''class'')") (auto simp: getMediaAlignment_def)
  show ?thesis
  proof (cases "alignRe_match cls")
    case (Some a)
    then show ?thesis using assms c alignRe_match_word[OF Some] by (auto simp: getMediaAlignment_def)
  next
    case None
    then show ?thesis using assms c
      by (auto simp: getMediaAlignment_def Let_def alignment_word_def
               split: list.splits if_splits option.splits)
  qed
qed

lemma getMediaAlignment_total:
  assumes "jq_hasClass [e] (lit ''media-element'')"
  shows "\<exists>cur. getMediaAlignment [e] = Inr cur"
proof -
  have "class_attr e \<noteq> []" using assms by (auto simp: jq_hasClass_def el_hasClass_def)
  then obtain cls where "map_of (attrs e) (lit ''class'') = Some cls"
    by (cases "map_of (attrs e) (lit ''class'')") (auto simp: class_attr_def)
  then show ?thesis
    by (cases "alignRe_match cls")
       (auto simp: getMediaAlignment_def jq_attr_def Let_def split: option.splits)
qed

text \<open>
  Claim C7. \<open>alignMedia(element, value, toggle)\<close> returns \<open>false\<close> and leaves the
  element as it is when the element lacks the class \<open>media-element\<close>. When the current
  alignment equals \<open>value\<close> and \<open>toggle\<close> is set, it resets the alignment, after which no
  element has the class \<open>media-wysiwyg-align-<value>\<close>, and returns \<open>false\<close>; when
  \<open>toggle\<close> is not set it returns \<open>true\<close> and changes nothing. When the current
  alignment differs from \<open>value\<close> it returns \<open>true\<close>, every element has the class
  \<open>media-wysiwyg-align-<value>\<close> and none has the class of the old alignment; an
  instance linked to the element gets \<open>value\<close> as its \<open>alignment\<close> setting. For a
  single element with the class \<open>media-element\<close> the current alignment is always
  determined.
\<close>

theorem alignMedia_spec:
  "(\<not> jq_hasClass el (lit ''media-element'') \<longrightarrow>
      alignMedia cfg el v toggle mi = Inr (False, el, mi))
   \<and> (jq_hasClass el (lit ''media-element'') \<and> getMediaAlignment el = Inr (JStr v) \<and> toggle \<longrightarrow>
      alignMedia cfg el v toggle mi = Inr (False, resetAlignment (JStr v) el, mi)
      \<and> list_all (\<lambda>e. \<not> el_hasClass (lit ''media-wysiwyg-align-'' @ v) e) (resetAlignment (JStr v) el))
   \<and> (jq_hasClass el (lit ''media-element'') \<and> getMediaAlignment el = Inr (JStr v) \<and> \<not> toggle \<longrightarrow>
      alignMedia cfg el v toggle mi = Inr (True, el, mi))
   \<and> (jq_hasClass el (lit ''media-element'') \<and> getMediaAlignment el = Inr cur \<and> cur \<noteq> JStr v \<longrightarrow>
      (\<exists>el'. alignMedia cfg el v toggle None = Inr (True, el', None)
         \<and> (\<forall>inst ps. settings inst = JObj ps \<longrightarrow>
               alignMedia cfg el v toggle (Some inst)
                 = Inr (True, el', Some (inst\<lparr>settings := JObj (AList.update (lit ''alignment'') (JStr v) ps)\<rparr>)))
         \<and> (no_class_space v \<longrightarrow>
               list_all (el_hasClass (lit ''media-wysiwyg-align-'' @ v)) el'
               \<and> (\<forall>c. cur = JStr c \<longrightarrow>
                     list_all (\<lambda>e. \<not> el_hasClass (lit ''media-wysiwyg-align-'' @ c) e) el'))))
   \<and> (jq_hasClass [e] (lit ''media-element'') \<longrightarrow> (\<exists>cur. getMediaAlignment [e] = Inr cur))"
proof -
  have p1: "alignMedia cfg el v toggle mi = Inr (False, el, mi)"
    if "\<not> jq_hasClass el (lit ''media-element'')"
    using that by (simp add: alignMedia_def)
  have p2: "alignMedia cfg el v toggle mi = Inr (False, resetAlignment (JStr v) el, mi)
      \<and> list_all (\<lambda>e. \<not> el_hasClass (lit ''media-wysiwyg-align-'' @ v) e) (resetAlignment (JStr v) el)"
    if h: "jq_hasClass el (lit ''media-element'')" "getMediaAlignment el = Inr (JStr v)" "toggle"
  proof -
    have "alignment_word v" using getMediaAlignment_values[OF h(2)] by simp
    then have "no_class_space v" by (rule alignment_word_no_space)
    then show ?thesis using h resetAlignment_classes(1) by (simp add: alignMedia_def)
  qed
  have p3: "alignMedia cfg el v toggle mi = Inr (True, el, mi)"
    if "jq_hasClass el (lit ''media-element'')" "getMediaAlignment el = Inr (JStr v)" "\<not> toggle"
    using that by (simp add: alignMedia_def)
  have p4: "\<exists>el'. alignMedia cfg el v toggle None = Inr (True, el', None)
         \<and> (\<forall>inst ps. settings inst = JObj ps \<longrightarrow>
               alignMedia cfg el v toggle (Some inst)
                 = Inr (True, el', Some (inst\<lparr>settings := JObj (AList.update (lit ''alignment'') (JStr v) ps)\<rparr>)))
         \<and> (no_class_space v \<longrightarrow>
               list_all (el_hasClass (lit ''media-wysiwyg-align-'' @ v)) el'
               \<and> (\<forall>c. cur = JStr c \<longrightarrow>
                     list_all (\<lambda>e. \<not> el_hasClass (lit ''media-wysiwyg-align-'' @ c) e) el'))"
    if h: "jq_hasClass el (lit ''media-element'')" "getMediaAlignment el = Inr cur" "cur \<noteq> JStr v"
  proof -
    let ?el1 = "if truthy cur then resetAlignment cur el else el"
    let ?el' = "jq_addClass (lit ''media-wysiwyg-align-'' @ v) ?el1"
    have a: "alignMedia cfg el v toggle None = Inr (True, ?el', None)"
      using h by (simp add: alignMedia_def setAlignment_def Let_def)
    have b: "alignMedia cfg el v toggle (Some inst)
                 = Inr (True, ?el', Some (inst\<lparr>settings := JObj (AList.update (lit ''alignment'') (JStr v) ps)\<rparr>))"
      if "settings inst = JObj ps" for inst ps
      using h that by (simp add: alignMedia_def setAlignment_def Let_def getSettings_def)
    have c: "list_all (el_hasClass (lit ''media-wysiwyg-align-'' @ v)) ?el'
               \<and> (\<forall>c. cur = JStr c \<longrightarrow>
                     list_all (\<lambda>e. \<not> el_hasClass (lit ''media-wysiwyg-align-'' @ c) e) ?el')"
      if nv: "no_class_space v"
    proof -
      have has: "list_all (el_hasClass (lit ''media-wysiwyg-align-'' @ v)) ?el'"
        using addClass_classes(1)[OF nv] .
      have old: "list_all (\<lambda>e. \<not> el_hasClass (lit ''media-wysiwyg-align-'' @ c) e) ?el'"
        if cc: "cur = JStr c" for c
      proof -
        have "alignment_word c" using getMediaAlignment_values[OF h(2)] cc by simp
        then have nc: "no_class_space c" and t: "truthy cur"
          using cc by (auto simp: alignment_word_no_space alignment_word_def lit_def)
        have ne: "lit ''media-wysiwyg-align-'' @ c \<noteq> lit ''media-wysiwyg-align-'' @ v"
          using h(3) cc by simp
        show ?thesis
          using addClass_classes(2)[OF nv ne, of ?el1] resetAlignment_classes(1)[OF nc, of el] t cc
          by simp
      qed
      show ?thesis using has old by blast
    qed
    show ?thesis using a b c by blast
  qed
  have p5: "\<exists>cur. getMediaAlignment [e] = Inr cur" if "jq_hasClass [e] (lit ''media-element'')"
    using getMediaAlignment_total[OF that] .
  show ?thesis using p1 p2 p3 p4 p5 by blast
qed

text \<open>The scenario: an image with \<open>media-wysiwyg-align-left\<close>, toggled with \<open>left\<close>, then
  aligned \<open>right\<close>; and the same image without the class \<open>media-element\<close>.\<close>

lemmas align_defs = alignMedia_def getMediaAlignment_def jq_attr_def jq_hasClass_def el_hasClass_def
  class_attr_def is_class_space_def alignRe_at_def align_capture_def is_space_def is_line_terminator_def
  resetAlignment_def setAlignment_def jq_removeClass_def jq_addClass_def el_removeClass_def el_addClass_def
  jq_removeAttr_def jq_css_float_set_def demo_img_def toLowerCase_unit_def

theorem alignMedia_spec_witness:
  "getMediaAlignment [demo_img (lit ''media-element media-wysiwyg-align-left'')] = Inr (JStr (lit ''left''))
   \<and> alignMedia demo_env [demo_img (lit ''media-wysiwyg-align-left'')] (lit ''left'') True None
       = Inr (False, [demo_img (lit ''media-wysiwyg-align-left'')], None)
   \<and> alignMedia demo_env [demo_img (lit ''media-element media-wysiwyg-align-left'')] (lit ''left'') True None
       = Inr (False, [demo_img (lit ''media-element'')], None)
   \<and> alignMedia demo_env [demo_img (lit ''media-element media-wysiwyg-align-left'')] (lit ''left'') False None
       = Inr (True, [demo_img (lit ''media-element media-wysiwyg-align-left'')], None)
   \<and> alignMedia demo_env [demo_img (lit ''media-element media-wysiwyg-align-left'')] (lit ''right'') False None
       = Inr (True, [demo_img (lit ''media-element media-wysiwyg-align-right'')], None)"
proof -
  let ?plain = "[demo_img (lit ''media-wysiwyg-align-left'')]"
  let ?left = "[demo_img (lit ''media-element media-wysiwyg-align-left'')]"
  have g: "getMediaAlignment ?left = Inr (JStr (lit ''left''))"
    by (simp add: align_defs lit_def)
  have n: "\<not> jq_hasClass ?plain (lit ''media-element'')"
    by (simp add: align_defs lit_def)
  have h: "jq_hasClass ?left (lit ''media-element'')"
    by (simp add: align_defs lit_def)
  have r: "resetAlignment (JStr (lit ''left'')) ?left = [demo_img (lit ''media-element'')]"
    by (simp add: align_defs lit_def)
  have d: "JStr (lit ''left'') \<noteq> JStr (lit ''right'')" by (simp add: lit_def)
  have a1: "alignMedia demo_env ?plain (lit ''left'') True None = Inr (False, ?plain, None)"
    using alignMedia_spec[of ?plain demo_env "lit ''left''" True None] n by blast
  have a2: "alignMedia demo_env ?left (lit ''left'') True None = Inr (False, [demo_img (lit ''media-element'')], None)"
    using alignMedia_spec[of ?left demo_env "lit ''left''" True None] h g r by simp
  have a3: "alignMedia demo_env ?left (lit ''left'') False None = Inr (True, ?left, None)"
    using alignMedia_spec[of ?left demo_env "lit ''left''" False None] h g by simp
  have a4: "alignMedia demo_env ?left (lit ''right'') False None
       = Inr (True, [demo_img (lit ''media-element media-wysiwyg-align-right'')], None)"
    using h g d r by (simp add: alignMedia_def setAlignment_def)
       (simp add: align_defs lit_def)
  show ?thesis using g a1 a2 a3 a4 by blast
qed

section \<open>Parsing and serializing a token\<close>

lemmas token_defs = getToken_def overrideLinkTitle_def escape_tags_def prepareSettingsForToken_def
  getOverridableFields_def clean_attributes_def clean_class_def generated_class_def is_space_def

lemma verify_demo: "verifySettings demo_env demo_settings = Inr demo_settings"
  by (simp add: verifySettings_def demo_defs lit_def js_get_def)

lemma getToken_demo:
  "getToken demo_env (settings_instance demo_settings)
     = Inr (demo_token2, (settings_instance demo_settings)
              \<lparr>settings := JObj [(lit ''type'', JStr (lit ''media'')),
                                 (lit ''fid'', JNum 42),
                                 (lit ''view_mode'', JStr (lit ''full'')),
                                 (lit ''attributes'',
                                    JObj [(lit ''alt'', JStr (lit ''x'')),
                                          (lit ''class'', JStr (lit ''media-element file-full''))]),
                                 (lit ''link_text'', JStr (lit ''a&lt;b''))],
                token := demo_token2\<rparr>)"
  by (simp add: token_defs settings_instance_def getSettings_def demo_defs lit_def js_get_def
      copyAsNew_def Let_def)

text \<open>
  As stated for every schema-declared field, the round trip fails on \<open>attributes\<close> and
  on \<open>link_text\<close>: the projection strips the attributes fed by fields and the generated
  classes, and deletes an attributes object that becomes empty, so that verification of
  the new token fills in the default; and the link text is serialized with its angle
  brackets escaped. In the sample token, \<open>attributes\<close> goes from
  \<open>{alt: "x", class: "media-element file-full"}\<close> to \<open>{}\<close> and \<open>link_text\<close> from
  \<open>a<b\<close> to \<open>a&lt;b\<close>.
\<close>

theorem roundtrip_counterexample:
  "roundtrip demo_env demo_token
     = Inr (demo_settings,
            JObj [(lit ''type'', JStr (lit ''media'')),
                  (lit ''fid'', JNum 42),
                  (lit ''view_mode'', JStr (lit ''full'')),
                  (lit ''link_text'', JStr (lit ''a&lt;b'')),
                  (lit ''attributes'', JObj [])])
   \<and> js_get demo_settings (lit ''attributes'')
       = JObj [(lit ''alt'', JStr (lit ''x'')), (lit ''class'', JStr (lit ''media-element file-full''))]
   \<and> js_get demo_settings (lit ''link_text'') = JStr (lit ''a<b'')
   \<and> map fst (tokenSchema demo_env)
       = [lit ''type'', lit ''fid'', lit ''view_mode'', lit ''attributes'', lit ''link_text'']"
proof -
  have c1: "WysiwygInstance demo_env (JStr demo_token) [] = Inr (demo_instance, demo_env)"
    by (simp add: WysiwygInstance_def demo_instance_def)
  have c2: "WysiwygInstance demo_env demo_settings [] = Inr (settings_instance demo_settings, demo_env)"
    using verify_demo by (simp add: WysiwygInstance_def settings_instance_def)
       (simp add: demo_settings_def js_get_def lit_def)
  have c3: "WysiwygInstance demo_env (JStr demo_token2) [] = Inr (token_instance demo_token2, demo_env)"
    by (simp add: WysiwygInstance_def token_instance_def)
  have g3: "getSettings demo_env (token_instance demo_token2)
      = Inr (JObj [(lit ''type'', JStr (lit ''media'')),
                  (lit ''fid'', JNum 42),
                  (lit ''view_mode'', JStr (lit ''full'')),
                  (lit ''link_text'', JStr (lit ''a&lt;b'')),
                  (lit ''attributes'', JObj [])],
             (token_instance demo_token2)\<lparr>settings := JObj [(lit ''type'', JStr (lit ''media'')),
                  (lit ''fid'', JNum 42),
                  (lit ''view_mode'', JStr (lit ''full'')),
                  (lit ''link_text'', JStr (lit ''a&lt;b'')),
                  (lit ''attributes'', JObj [])]\<rparr>)"
    by (simp add: getSettings_def token_instance_def demo_defs lit_def verifySettings_def js_get_def
        copyAsNew_def)
  have r: "roundtrip demo_env demo_token
     = Inr (demo_settings,
            JObj [(lit ''type'', JStr (lit ''media'')),
                  (lit ''fid'', JNum 42),
                  (lit ''view_mode'', JStr (lit ''full'')),
                  (lit ''link_text'', JStr (lit ''a&lt;b'')),
                  (lit ''attributes'', JObj [])])"
    by (simp add: roundtrip_def bindE_def c1 getSettings_demo c2 getToken_demo c3 g3)
  show ?thesis using r by (simp add: demo_defs js_get_def lit_def)
qed

lemma copy_schema_get:
  "map_of (copy_schema_properties sch s acc) p =
     (if p \<in> fst ` set sch \<and> truthy (js_get s p) then Some (copyAsNew (js_get s p)) else map_of acc p)"
proof (induction sch arbitrary: acc)
  case Nil
  then show ?case by simp
next
  case (Cons a sch)
  obtain q sq where a: "a = (q, sq)" by (cases a)
  show ?case unfolding a by (simp add: Cons.IH update_conv')
qed

lemma copy_field_get:
  "map_of (copy_field_properties field props acc) p = r \<Longrightarrow>
     r = map_of acc p \<or> (\<exists>v. r = Some v \<and> (p, v) \<in> set props)"
proof (induction props arbitrary: acc)
  case Nil
  then show ?case by simp
next
  case (Cons a props)
  obtain q v where a: "a = (q, v)" by (cases a)
  show ?case using Cons.IH[of "if prefix (field @ lit ''['') q then AList.update q v acc else acc"]
      Cons.prems
    unfolding a by (auto simp: update_conv' split: if_splits)
qed

lemma copy_overridable_get:
  "map_of (copy_overridable_fields fs s acc) p = r \<Longrightarrow>
     r = map_of acc p \<or> (\<exists>v. r = Some v \<and> (p, v) \<in> set (own_props s))"
proof (induction fs arbitrary: acc)
  case Nil
  then show ?case by simp
next
  case (Cons a fs)
  obtain f st where a: "a = (f, st)" by (cases a)
  from Cons.IH[of "copy_field_properties f (own_props s) acc"] Cons.prems
  have "r = map_of (copy_field_properties f (own_props s) acc) p
        \<or> (\<exists>v. r = Some v \<and> (p, v) \<in> set (own_props s))"
    unfolding a by simp
  then show ?case using copy_field_get[of f "own_props s" acc p] by auto
qed

lemma clean_attributes_other:
  assumes "clean_attributes cfg pr1 = Inr pr" and "p \<noteq> lit ''attributes''"
  shows "map_of pr p = map_of pr1 p"
  using assms
  by (auto simp: clean_attributes_def Let_def update_conv' delete_conv' split: if_splits sum.splits)

lemma prepare_schema_property:
  assumes prep: "prepareSettingsForToken cfg (JObj ps1) = Inr pristine"
    and d: "distinct (map fst ps1)"
    and p: "p \<in> fst ` set (tokenSchema cfg)" "p \<noteq> lit ''attributes''"
    and pl: "plain (js_get (JObj ps1) p)"
  shows "(truthy (js_get (JObj ps1) p) \<longrightarrow> js_get pristine p = js_get (JObj ps1) p)
       \<and> (\<not> truthy (js_get (JObj ps1) p) \<longrightarrow> \<not> truthy (js_get pristine p))"
proof -
  let ?pr0 = "copy_schema_properties (tokenSchema cfg) (JObj ps1) []"
  let ?pr1 = "copy_overridable_fields (getOverridableFields cfg (js_get (JObj ps1) (lit ''fid''))) (JObj ps1) ?pr0"
  obtain pr where pr: "clean_attributes cfg ?pr1 = Inr pr" "pristine = JObj pr"
    using prep by (cases "clean_attributes cfg ?pr1") (auto simp: prepareSettingsForToken_def Let_def)
  have m: "map_of pr p = map_of ?pr1 p" using clean_attributes_other[OF pr(1) p(2)] .
  have m0: "map_of ?pr0 p = (if truthy (js_get (JObj ps1) p) then Some (js_get (JObj ps1) p) else None)"
    using p(1) copyAsNew_plain[OF pl] by (simp add: copy_schema_get)
  have alt: "map_of ?pr1 p = map_of ?pr0 p \<or> (\<exists>v. map_of ?pr1 p = Some v \<and> (p, v) \<in> set ps1)"
    using copy_overridable_get[of _ "JObj ps1" ?pr0 p, OF refl] by simp
  have inps: "map_of ps1 p = Some v" if "(p, v) \<in> set ps1" for v
    using that d by simp
  have g: "js_get (JObj pr) p = js_get (JObj ps1) p
           \<or> (js_get (JObj pr) p = JUndefined \<and> \<not> truthy (js_get (JObj ps1) p))"
    using alt m m0 inps by (auto simp: js_get_def split: if_splits)
  then show ?thesis using pr(2) by auto
qed


lemma getToken_of_settings:
  assumes "token this = []" and "settings this = JObj ps" and "getToken cfg this = Inr (t, this1)"
  shows "\<exists>ps1 pristine. settings this1 = JObj ps1
           \<and> (ps1 = ps \<or> (\<exists>x. ps1 = AList.update (lit ''link_text'') x ps))
           \<and> prepareSettingsForToken cfg (JObj ps1) = Inr pristine
           \<and> t = lit ''[['' @ JSON_stringify cfg pristine @ lit '']]''"
proof -
  have g: "getSettings cfg this = Inr (JObj ps, this)" using assms(2) by (simp add: getSettings_def)
  let ?m = "if typeof (js_get (JObj ps) (lit ''link_text'')) = ''string''
            then case overrideLinkTitle cfg (JObj ps) of
                   JStr t \<Rightarrow> js_set (JObj ps) (lit ''link_text'') (JStr (escape_tags t))
                 | _ \<Rightarrow> Inl TypeError
            else Inr (JObj ps)"
  obtain s1 where m: "?m = Inr s1"
    using assms(1,3) g by (cases ?m) (simp_all add: getToken_def)
  then have s1: "s1 = JObj ps \<or> (\<exists>x. s1 = JObj (AList.update (lit ''link_text'') x ps))"
    by (auto split: if_splits jsval.splits)
  obtain pristine where p: "prepareSettingsForToken cfg s1 = Inr pristine"
    using assms(1,3) g m by (cases "prepareSettingsForToken cfg s1") (simp_all add: getToken_def)
  have "t = lit ''[['' @ JSON_stringify cfg pristine @ lit '']]''"
       "this1 = this\<lparr>settings := s1, token := t\<rparr>"
    using assms(1,3) g m p by (auto simp: getToken_def Let_def)
  then show ?thesis using s1 p by auto
qed

lemma prepare_object: "prepareSettingsForToken cfg s = Inr pristine \<Longrightarrow> \<exists>pr. pristine = JObj pr"
  by (auto simp: prepareSettingsForToken_def Let_def split: sum.splits)

lemma schema_key_entry: "p \<in> fst ` set sch \<Longrightarrow> \<exists>sp. map_of sch p = Some sp \<and> (p, sp) \<in> set sch"
  by (metis map_of_SomeD map_of_eq_None_iff not_Some_eq)

text \<open>
  Claim C3, amended. Let the schema have pairwise different property names, declare
  \<open>type\<close>, and require neither \<open>attributes\<close> nor \<open>link_text\<close>. Let an instance without
  a cached token hold resolved settings: an object with pairwise different property names
  that verification leaves as it is and whose schema-declared values are JSON values. Let
  \<open>getToken\<close> serialize them to the token \<open>t\<close>, and let \<open>JSON.parse\<close> of \<open>t\<close> without
  its brackets return the object that was serialized. Then \<open>getSettings\<close> on an instance
  built from \<open>t\<close> succeeds, and its settings agree with the original ones on every
  schema-declared field other than \<open>attributes\<close> and \<open>link_text\<close>.
\<close>

theorem roundtrip_schema_fields:
  assumes sch: "distinct (map fst (tokenSchema cfg))"
    and ty: "lit ''type'' \<in> fst ` set (tokenSchema cfg)"
    and req: "\<forall>x \<in> set (tokenSchema cfg). required (snd x) \<longrightarrow>
                fst x \<noteq> lit ''attributes'' \<and> fst x \<noteq> lit ''link_text''"
    and dps: "distinct (map fst ps)"
    and ver: "verifySettings cfg (JObj ps) = Inr (JObj ps)"
    and pl: "\<forall>p \<in> fst ` set (tokenSchema cfg). plain (js_get (JObj ps) p)"
    and tok: "token this = []" "settings this = JObj ps"
    and get: "getToken cfg this = Inr (t, this1)"
    and json: "JSON_parse cfg (js_replace (lit '']]'') [] (js_replace (lit ''[['') [] t))
                 = prepareSettingsForToken cfg (settings this1)"
  shows "\<exists>s'. getSettings cfg (token_instance t) = Inr (s', (token_instance t)\<lparr>settings := s'\<rparr>)
           \<and> (\<forall>p \<in> fst ` set (tokenSchema cfg).
                 p \<noteq> lit ''attributes'' \<and> p \<noteq> lit ''link_text'' \<longrightarrow> js_get s' p = js_get (JObj ps) p)"
proof -
  from getToken_of_settings[OF tok get] obtain ps1 pristine where
    s1: "settings this1 = JObj ps1"
    and rel: "ps1 = ps \<or> (\<exists>x. ps1 = AList.update (lit ''link_text'') x ps)"
    and prep: "prepareSettingsForToken cfg (JObj ps1) = Inr pristine"
    and t: "t = lit ''[['' @ JSON_stringify cfg pristine @ lit '']]''"
    by blast
  obtain pr where pr: "pristine = JObj pr" using prepare_object[OF prep] by blast
  have d1: "distinct (map fst ps1)" using rel dps by (auto simp: distinct_update)
  have same: "js_get (JObj ps1) p = js_get (JObj ps) p" if "p \<noteq> lit ''link_text''" for p
    using rel that by auto
  have each: "verifySettings_each (tokenSchema cfg) (JObj ps) = Inr (JObj ps)"
    and media: "js_get (JObj ps) (lit ''type'') = JStr (lit ''media'')"
    using ver by (auto simp: verifySettings_def split: sum.splits if_splits)
  have reqt: "truthy (js_get (JObj ps) p)" if "map_of (tokenSchema cfg) p = Some sp" "required sp" for p sp
  proof (rule ccontr)
    assume "\<not> truthy (js_get (JObj ps) p)"
    from verifySettings_each_required[OF that this] show False using each by simp
  qed
  have Q: "(truthy (js_get (JObj ps) p) \<longrightarrow> js_get (JObj pr) p = js_get (JObj ps) p)
         \<and> (\<not> truthy (js_get (JObj ps) p) \<longrightarrow> \<not> truthy (js_get (JObj pr) p))"
    if "p \<in> fst ` set (tokenSchema cfg)" "p \<noteq> lit ''attributes''" "p \<noteq> lit ''link_text''" for p
  proof -
    have "plain (js_get (JObj ps1) p)" using pl that(1) same[OF that(3)] by auto
    from prepare_schema_property[OF prep d1 that(1,2) this] show ?thesis
      using same[OF that(3)] pr by simp
  qed
  have total: "\<forall>x \<in> set (tokenSchema cfg). required (snd x) \<longrightarrow> truthy (js_get (JObj pr) (fst x))"
  proof (intro ballI impI)
    fix x assume x: "x \<in> set (tokenSchema cfg)" "required (snd x)"
    then have k: "fst x \<in> fst ` set (tokenSchema cfg)" by simp
    have m: "map_of (tokenSchema cfg) (fst x) = Some (snd x)" using x(1) sch by simp
    have "truthy (js_get (JObj ps) (fst x))" using reqt[OF m x(2)] .
    then show "truthy (js_get (JObj pr) (fst x))" using Q[OF k] req x by auto
  qed
  from verifySettings_each_total[OF total sch] obtain ps' where
    e': "verifySettings_each (tokenSchema cfg) (JObj pr) = Inr (JObj ps')" by blast
  have keep: "js_get (JObj ps') p = js_get (JObj ps) p"
    if p: "p \<in> fst ` set (tokenSchema cfg)" "p \<noteq> lit ''attributes''" "p \<noteq> lit ''link_text''" for p
  proof -
    obtain sp where sp: "map_of (tokenSchema cfg) p = Some sp" using schema_key_entry[OF p(1)] by blast
    have new: "js_get (JObj ps') p =
        (if \<not> required sp \<and> \<not> truthy (js_get (JObj pr) p)
         then copyAsNew (default_val sp) else js_get (JObj pr) p)"
      using verifySettings_each_get[OF sch e', of p] sp by simp
    have old: "js_get (JObj ps) p =
        (if \<not> required sp \<and> \<not> truthy (js_get (JObj ps) p)
         then copyAsNew (default_val sp) else js_get (JObj ps) p)"
      using verifySettings_each_get[OF sch each, of p] sp by simp
    show ?thesis
    proof (cases "truthy (js_get (JObj ps) p)")
      case True
      then show ?thesis using Q[OF p] new by simp
    next
      case False
      then have nr: "\<not> required sp" using reqt[OF sp] by blast
      have "\<not> truthy (js_get (JObj pr) p)" using Q[OF p] False by simp
      then have "js_get (JObj ps') p = copyAsNew (default_val sp)" using new nr by simp
      moreover have "js_get (JObj ps) p = copyAsNew (default_val sp)" using old nr False by argo
      ultimately show ?thesis by simp
    qed
  qed
  have tyne: "lit ''type'' \<noteq> lit ''attributes''" "lit ''type'' \<noteq> lit ''link_text''"
    by (simp_all add: lit_def)
  have "js_get (JObj ps') (lit ''type'') = JStr (lit ''media'')"
    using keep[OF ty tyne] media by simp
  then have v: "verifySettings cfg (JObj pr) = Inr (JObj ps')"
    using e' by (simp add: verifySettings_def)
  have tne: "t \<noteq> []" using t by (simp add: lit_def)
  have parse: "JSON_parse cfg (js_replace (lit '']]'') [] (js_replace (lit ''[['') [] t)) = Inr (JObj pr)"
    using json s1 prep pr by simp
  have "getSettings cfg (token_instance t) = Inr (JObj ps', (token_instance t)\<lparr>settings := JObj ps'\<rparr>)"
    using tne parse v by (simp add: getSettings_def token_instance_def)
  then show ?thesis using keep by blast
qed

theorem roundtrip_schema_fields_witness:
  "verifySettings demo_env demo_settings = Inr demo_settings
   \<and> getToken demo_env (settings_instance demo_settings)
       = Inr (demo_token2, (settings_instance demo_settings)
              \<lparr>settings := JObj [(lit ''type'', JStr (lit ''media'')),
                                 (lit ''fid'', JNum 42),
                                 (lit ''view_mode'', JStr (lit ''full'')),
                                 (lit ''attributes'',
                                    JObj [(lit ''alt'', JStr (lit ''x'')),
                                          (lit ''class'', JStr (lit ''media-element file-full''))]),
                                 (lit ''link_text'', JStr (lit ''a&lt;b''))],
                token := demo_token2\<rparr>)
   \<and> JSON_parse demo_env (js_replace (lit '']]'') [] (js_replace (lit ''[['') [] demo_token2))
       = Inr demo_settings2
   \<and> bindE (getSettings demo_env (token_instance demo_token2))
         (\<lambda>r. Inr (map (js_get (fst r)) [lit ''type'', lit ''fid'', lit ''view_mode'']))
       = Inr (map (js_get demo_settings) [lit ''type'', lit ''fid'', lit ''view_mode''])"
proof -
  let ?ps = "[(lit ''type'', JStr (lit ''media'')),
           (lit ''fid'', JNum 42),
           (lit ''view_mode'', JStr (lit ''full'')),
           (lit ''attributes'',
              JObj [(lit ''alt'', JStr (lit ''x'')), (lit ''class'', JStr (lit ''media-element file-full''))]),
           (lit ''link_text'', JStr (lit ''a<b''))]"
  let ?this1 = "(settings_instance demo_settings)
              \<lparr>settings := JObj [(lit ''type'', JStr (lit ''media'')),
                                 (lit ''fid'', JNum 42),
                                 (lit ''view_mode'', JStr (lit ''full'')),
                                 (lit ''attributes'',
                                    JObj [(lit ''alt'', JStr (lit ''x'')),
                                          (lit ''class'', JStr (lit ''media-element file-full''))]),
                                 (lit ''link_text'', JStr (lit ''a&lt;b''))],
                token := demo_token2\<rparr>"
  have ds: "demo_settings = JObj ?ps" by (simp add: demo_settings_def)
  have sch: "distinct (map fst (tokenSchema demo_env))" by (simp add: demo_defs lit_def)
  have ty: "lit ''type'' \<in> fst ` set (tokenSchema demo_env)" by (simp add: demo_defs lit_def)
  have req: "\<forall>x \<in> set (tokenSchema demo_env). required (snd x) \<longrightarrow>
                fst x \<noteq> lit ''attributes'' \<and> fst x \<noteq> lit ''link_text''"
    by (simp add: demo_defs lit_def)
  have dps: "distinct (map fst ?ps)" by (simp add: lit_def)
  have ver: "verifySettings demo_env (JObj ?ps) = Inr (JObj ?ps)" using verify_demo ds by simp
  have pl: "\<forall>p \<in> fst ` set (tokenSchema demo_env). plain (js_get (JObj ?ps) p)"
    by (simp add: demo_defs lit_def js_get_def)
  have tk: "token (settings_instance demo_settings) = []"
    "settings (settings_instance demo_settings) = JObj ?ps"
    by (simp_all add: settings_instance_def ds)
  have get: "getToken demo_env (settings_instance demo_settings) = Inr (demo_token2, ?this1)"
    by (rule getToken_demo)
  have parse: "JSON_parse demo_env (js_replace (lit '']]'') [] (js_replace (lit ''[['') [] demo_token2))
       = Inr demo_settings2"
    by (simp add: demo_defs lit_def)
  have prep: "prepareSettingsForToken demo_env (settings ?this1) = Inr demo_settings2"
    by (simp add: token_defs demo_defs lit_def js_get_def copyAsNew_def Let_def)
  from roundtrip_schema_fields[OF sch ty req dps ver pl tk get] parse prep
  obtain s' where s': "getSettings demo_env (token_instance demo_token2)
        = Inr (s', (token_instance demo_token2)\<lparr>settings := s'\<rparr>)"
    "\<forall>p \<in> fst ` set (tokenSchema demo_env).
       p \<noteq> lit ''attributes'' \<and> p \<noteq> lit ''link_text'' \<longrightarrow> js_get s' p = js_get (JObj ?ps) p"
    by auto
  have "js_get s' (lit ''type'') = js_get demo_settings (lit ''type'')"
       "js_get s' (lit ''fid'') = js_get demo_settings (lit ''fid'')"
       "js_get s' (lit ''view_mode'') = js_get demo_settings (lit ''view_mode'')"
    using s'(2) ds by (simp_all add: demo_env_def demo_schema_def lit_def)
  then show ?thesis using s'(1) verify_demo get parse by (simp add: bindE_def)
qed

end
